theory Spec2Isabelle
  imports Main
begin

section \<open>The micro-application viewer bridge (MicroAppViewer)\<close>

text \<open>
  A shallow embedding of the React component \<^verbatim>\<open>MicroAppViewer\<close>: the native side of the
  bridge between a WebView (the content surface) and the host application. Every handler
  of the component is a function from the component's state to the new state and the
  list of effects the handler performs on the outside world, in the order it performs
  them. State set with \<^verbatim>\<open>useState\<close>, the two refs and the device's AsyncStorage are
  the fields of one record.
\<close>

subsection \<open>JavaScript values\<close>

text \<open>
  What \<^verbatim>\<open>JSON.parse\<close> can return. The bridge never computes with a number: it tests
  its truthiness and prints it. \<open>JNum nonzero text\<close> carries exactly that of a number:
  whether it is different from zero, and the text \<^verbatim>\<open>String(n)\<close> gives for it (which is in
  exponent form from 1e21 on). \<open>None\<close> of type \<open>jsval\<close> is \<^verbatim>\<open>undefined\<close>. An
  object keeps its members in the order of the text.
\<close>

datatype json =
    JNull
  | JBool bool
  | JNum bool string
  | JStr string
  | JArr "json list"
  | JObj "(string \<times> json) list"

type_synonym jsval = "json option"

text \<open>What a \<^verbatim>\<open>catch\<close> block receives: an instance of Error with its message, or
  any other thrown value. A TypeError or SyntaxError of the engine is an Error whose
  message is the engine's own text; the model writes the name of the error for it.\<close>

datatype thrown = Error string | NonError

text \<open>\<^verbatim>\<open>v.name\<close>: reading a property of \<^verbatim>\<open>undefined\<close> or \<^verbatim>\<open>null\<close> throws a TypeError;
  of an object parsed from JSON it is the member of that name (the last one when the text
  repeats a key) or \<^verbatim>\<open>undefined\<close>; none of the names the bridge reads is a property
  of a string, a number, a boolean or an array.\<close>

fun getProp :: "jsval \<Rightarrow> string \<Rightarrow> thrown + jsval" where
  "getProp None name = Inl (Error ''TypeError'')"
| "getProp (Some JNull) name = Inl (Error ''TypeError'')"
| "getProp (Some (JObj members)) name = Inr (map_of (rev members) name)"
| "getProp (Some v) name = Inr None"

fun truthy :: "jsval \<Rightarrow> bool" where
  "truthy None = False"
| "truthy (Some JNull) = False"
| "truthy (Some (JBool b)) = b"
| "truthy (Some (JNum nonzero text)) = nonzero"
| "truthy (Some (JStr s)) = (s \<noteq> [])"
| "truthy (Some (JArr xs)) = True"
| "truthy (Some (JObj members)) = True"

text \<open>A default parameter value (\<^verbatim>\<open>buttonText = "OK"\<close>) replaces \<^verbatim>\<open>undefined\<close> only.\<close>

definition orDefault :: "jsval \<Rightarrow> json \<Rightarrow> json" where
  "orDefault v d = (case v of None \<Rightarrow> d | Some x \<Rightarrow> x)"

text \<open>An object literal \<^verbatim>\<open>{ a, b }\<close> as \<^verbatim>\<open>JSON.stringify\<close> writes it: a member whose
  value is \<^verbatim>\<open>undefined\<close> is left out.\<close>

fun objectOf :: "(string \<times> jsval) list \<Rightarrow> json" where
  "objectOf members = JObj (concat (map (\<lambda>(k, v). case v of None \<Rightarrow> [] | Some x \<Rightarrow> [(k, x)]) members))"

subsection \<open>Strings\<close>

text \<open>The digits of a natural number: how a template literal prints \<^verbatim>\<open>Date.now()\<close>, an
  integer that never reaches 1e21.\<close>

fun decimal :: "nat \<Rightarrow> string" where
  "decimal n =
     (if n < 10 then [''0123456789'' ! n]
      else decimal (n div 10) @ [''0123456789'' ! (n mod 10)])"

declare decimal.simps [simp del]

fun joinWith :: "string \<Rightarrow> string list \<Rightarrow> string" where
  "joinWith sep [] = []"
| "joinWith sep [x] = x"
| "joinWith sep (x # y # ys) = x @ sep @ joinWith sep (y # ys)"

text \<open>The results of a list of conversions, or what the first failing one throws.\<close>

fun allOrThrown :: "(thrown + 'a) list \<Rightarrow> thrown + 'a list" where
  "allOrThrown [] = Inr []"
| "allOrThrown (Inl e # rs) = Inl e"
| "allOrThrown (Inr x # rs) = (case allOrThrown rs of Inl e \<Rightarrow> Inl e | Inr xs \<Rightarrow> Inr (x # xs))"

text \<open>
  The string a template literal \<^verbatim>\<open>${v}\<close> inserts for a value, or the TypeError the
  conversion throws. An object parsed from JSON converts through \<^verbatim>\<open>Object.prototype.toString\<close>
  unless it has a member \<^verbatim>\<open>toString\<close> of its own: that member is not callable, and
  \<^verbatim>\<open>valueOf\<close> gives no primitive either, so the conversion throws. An array joins the
  conversions of its elements with commas, \<^verbatim>\<open>null\<close> counting as the empty string.
\<close>

fun toString :: "json \<Rightarrow> thrown + string" where
  "toString JNull = Inr ''null''"
| "toString (JBool b) = Inr (if b then ''true'' else ''false'')"
| "toString (JNum nonzero text) = Inr text"
| "toString (JStr s) = Inr s"
| "toString (JArr xs) =
     (case allOrThrown (map (\<lambda>x. if x = JNull then Inr [] else toString x) xs) of
        Inl e \<Rightarrow> Inl e
      | Inr texts \<Rightarrow> Inr (joinWith '','' texts))"
| "toString (JObj members) =
     (if ''toString'' \<in> fst ` set members then Inl (Error ''TypeError'')
      else Inr ''[object Object]'')"

definition template :: "jsval \<Rightarrow> thrown + string" where
  "template v = (case v of None \<Rightarrow> Inr ''undefined'' | Some x \<Rightarrow> toString x)"

fun startsWith :: "string \<Rightarrow> string \<Rightarrow> bool" where
  "startsWith s [] = True"
| "startsWith [] (p # ps) = False"
| "startsWith (c # cs) (p # ps) = (c = p \<and> startsWith cs ps)"

text \<open>\<^verbatim>\<open>s.includes(needle)\<close>.\<close>

fun str_includes :: "string \<Rightarrow> string \<Rightarrow> bool" where
  "str_includes [] needle = (needle = [])"
| "str_includes (c # cs) needle = (startsWith (c # cs) needle \<or> str_includes cs needle)"

subsection \<open>Session parameters and the configuration derived from them\<close>

record MicroAppParams =
  appId :: string
  appName :: string
  webViewUri :: "string option"
  clientId :: "string option"
  exchangedToken :: "string option"

record AppConfig =
  isDeveloper :: bool
  isTotp :: bool
  requiresAuth :: bool
  allowsFileAccess :: bool

definition appConfig :: "MicroAppParams \<Rightarrow> AppConfig" where
  "appConfig P =
     \<lparr> isDeveloper = str_includes (appId P) ''developer'',
       isTotp = str_includes (appId P) ''totp'',
       requiresAuth = (\<not> str_includes (appId P) ''public''),
       allowsFileAccess = str_includes (appId P) ''file'' \<rparr>"

text \<open>
  The topic constants \<^verbatim>\<open>TOPIC.TOKEN\<close>, ... are imported from \<^verbatim>\<open>@/utils/bridge\<close>, which is
  not among the source files, so their values are a parameter of the model. The topics
  \<^verbatim>\<open>download_file\<close> and \<^verbatim>\<open>upload_file\<close> are string literals of the handler.
\<close>

record TopicTable =
  TOKEN :: string
  QR_REQUEST :: string
  SAVE_LOCAL_DATA :: string
  GET_LOCAL_DATA :: string
  ALERT :: string
  CONFIRM_ALERT :: string

subsection \<open>Effects and state\<close>

text \<open>
  The script \<^verbatim>\<open>sendResponseToWeb\<close> builds: a call of \<^verbatim>\<open>window.nativebridge.method\<close>
  with the JSON text of the payload, guarded by the test that \<^verbatim>\<open>window.nativebridge\<close>
  and the method exist.
\<close>

datatype script = GuardedCall string jsval

text \<open>What pressing a button of a native alert does.\<close>

datatype native_action = SendResponse string jsval

datatype button = Button json "native_action option"

text \<open>
  \<open>ContinuationCalled i token\<close> is a ghost effect: it records that the continuation
  queued by the message with arrival number \<open>i\<close> was called with \<open>token\<close>. The
  source's continuations are all the function \<^verbatim>\<open>sendTokenToWebView\<close>; the arrival number
  only tells them apart.
\<close>

datatype effect =
    InjectJavaScript script
  | Alert_alert jsval jsval "button list"
  | Console_warn string jsval
  | Console_error string "thrown option"
  | WebView_reload
  | ContinuationCalled nat string

datatype continuation = SendTokenToWebView nat

record bridge =
  isLoading :: bool
  hasError :: bool
  isScannerVisible :: bool
  authToken :: "string option"
  webUri :: string
  pendingTokenRequests :: "continuation list"
  webviewRef :: bool
  asyncStorage :: "string \<rightharpoonup> string"

text \<open>
  \<open>webviewRef s\<close> says that \<^verbatim>\<open>webviewRef.current\<close> is not null: the last render mounted
  a WebView. \<open>asyncStorage\<close> is the device's key-value store, shared by every session
  whatever its application identity.
\<close>

definition injected :: "effect list \<Rightarrow> script list" where
  "injected out = concat (map (\<lambda>e. case e of InjectJavaScript c \<Rightarrow> [c] | _ \<Rightarrow> []) out)"

definition continuationCalls :: "effect list \<Rightarrow> (nat \<times> string) list" where
  "continuationCalls out =
     concat (map (\<lambda>e. case e of ContinuationCalled i t \<Rightarrow> [(i, t)] | _ \<Rightarrow> []) out)"

subsection \<open>The content surface\<close>

text \<open>
  How the WebView evaluates an injected script: \<open>nb\<close> is \<^verbatim>\<open>window.nativebridge\<close>,
  \<open>None\<close> when the page has not defined it, otherwise the names of the callbacks it
  holds. The result lists the callbacks invoked, with their argument.
\<close>

fun evalScript :: "string list option \<Rightarrow> script \<Rightarrow> (string \<times> jsval) list" where
  "evalScript None (GuardedCall method d) = []"
| "evalScript (Some callbacks) (GuardedCall method d) =
     (if method \<in> set callbacks then [(method, d)] else [])"

subsection \<open>Responses and the token queue\<close>

text \<open>\<^verbatim>\<open>webviewRef.current?.injectJavaScript(script)\<close>: nothing happens while the ref is null.\<close>

definition sendResponseToWeb :: "string \<Rightarrow> jsval \<Rightarrow> bridge \<Rightarrow> effect list" where
  "sendResponseToWeb method d s =
     (if webviewRef s then [InjectJavaScript (GuardedCall method d)] else [])"

text \<open>
  \<^verbatim>\<open>sendTokenToWebView\<close> and its \<^verbatim>\<open>while\<close> loop. The loop shifts the first continuation
  off the queue and calls it; the continuation is \<^verbatim>\<open>sendTokenToWebView\<close> again, which
  runs its own loop on what is left of the queue before the outer loop tests the queue
  again.
\<close>

function sendTokenToWebView :: "string \<Rightarrow> bridge \<Rightarrow> bridge \<times> effect list"
  and drainPending :: "string \<Rightarrow> bridge \<Rightarrow> bridge \<times> effect list"
where
  "sendTokenToWebView token s =
     (if token = [] then (s, [])
      else (case drainPending token s of (s', out) \<Rightarrow>
              (s', sendResponseToWeb ''resolveToken'' (Some (JStr token)) s @ out)))"
| "drainPending token s =
     (case pendingTokenRequests s of
        [] \<Rightarrow> (s, [])
      | SendTokenToWebView i # rest \<Rightarrow>
          (case sendTokenToWebView token (s\<lparr>pendingTokenRequests := rest\<rparr>) of (s1, out1) \<Rightarrow>
             (case drainPending token s1 of (s2, out2) \<Rightarrow>
                (s2, ContinuationCalled i token # out1 @ out2))))"
  by pat_completeness auto

lemma queue_shrinks:
  "sendTokenToWebView_drainPending_dom (Inl (token, s)) \<Longrightarrow>
     length (pendingTokenRequests (fst (sendTokenToWebView token s)))
       \<le> length (pendingTokenRequests s)"
  "sendTokenToWebView_drainPending_dom (Inr (token, s)) \<Longrightarrow>
     length (pendingTokenRequests (fst (drainPending token s)))
       \<le> length (pendingTokenRequests s)"
proof (induct rule: sendTokenToWebView_drainPending.pinduct)
  case (1 token s)
  then show ?case
    by (auto simp: sendTokenToWebView.psimps split: prod.splits)
next
  case (2 token s)
  show ?case
  proof (cases "pendingTokenRequests s")
    case Nil
    with 2(1) show ?thesis by (simp add: drainPending.psimps)
  next
    case (Cons c rest)
    obtain i where c: "c = SendTokenToWebView i" by (cases c)
    obtain s1 out1 where
      r1: "sendTokenToWebView token (s\<lparr>pendingTokenRequests := rest\<rparr>) = (s1, out1)"
      by (cases "sendTokenToWebView token (s\<lparr>pendingTokenRequests := rest\<rparr>)")
    obtain s2 out2 where r2: "drainPending token s1 = (s2, out2)"
      by (cases "drainPending token s1")
    have a: "length (pendingTokenRequests s1) \<le> length rest"
      using 2(2)[of c rest i] Cons c r1 by simp
    have b: "length (pendingTokenRequests s2) \<le> length (pendingTokenRequests s1)"
      using 2(3)[of c rest i s1 out1] Cons c r1 r2 by simp
    from 2(1) Cons c r1 r2 a b show ?thesis
      by (simp add: drainPending.psimps)
  qed
qed

termination sendTokenToWebView
proof (relation "measure (\<lambda>x. case x of
          Inl (t, s) \<Rightarrow> 2 * length (pendingTokenRequests s) + 1
        | Inr (t, s) \<Rightarrow> 2 * length (pendingTokenRequests s))", goal_cases)
  case 1
  show ?case by simp
next
  case (2 token s)
  then show ?case by simp
next
  case (3 token s c rest i)
  then show ?case by simp
next
  case (4 token s c rest i s1 out1)
  have "fst (sendTokenToWebView token (s\<lparr>pendingTokenRequests := rest\<rparr>)) = s1"
    using 4(3)[symmetric] by simp
  with queue_shrinks(1)[OF 4(4)] 4(1) show ?case by simp
qed

declare sendTokenToWebView.simps [simp del] drainPending.simps [simp del]

subsection \<open>Native dialogs\<close>

text \<open>\<^verbatim>\<open>Alert.alert(title, message, [{ text: buttonText }], { cancelable: false })\<close>.\<close>

definition handleAlert :: "jsval \<Rightarrow> jsval \<Rightarrow> jsval \<Rightarrow> effect list" where
  "handleAlert title message buttonText =
     [Alert_alert title message [Button (orDefault buttonText (JStr ''OK'')) None]]"

definition handleConfirmAlert :: "jsval \<Rightarrow> jsval \<Rightarrow> jsval \<Rightarrow> jsval \<Rightarrow> effect list" where
  "handleConfirmAlert title message cancelText confirmText =
     [Alert_alert title message
        [Button (orDefault cancelText (JStr ''Cancel''))
           (Some (SendResponse ''resolveConfirmAlert'' (Some (JStr ''cancel'')))),
         Button (orDefault confirmText (JStr ''Confirm''))
           (Some (SendResponse ''resolveConfirmAlert'' (Some (JStr ''confirm''))))]]"

subsection \<open>The credential fetch\<close>

text \<open>
  The \<^verbatim>\<open>try\<close> block of \<^verbatim>\<open>fetchAuthToken\<close> builds a mock token from \<^verbatim>\<open>Date.now()\<close>, stores
  it with \<^verbatim>\<open>setAuthToken\<close> and calls \<^verbatim>\<open>sendTokenToWebView\<close>. The first two statements
  cannot throw; the third can, where it calls \<^verbatim>\<open>injectJavaScript\<close> on the mounted WebView.

  \<open>sendTokenToWebView_until k\<close> is the run of \<^verbatim>\<open>sendTokenToWebView\<close> in which \<open>k\<close> calls
  of \<^verbatim>\<open>injectJavaScript\<close> return and the next one throws. Neither the function nor its loop
  catches, so the exception leaves every nested call at once: the run ends \<open>Threw\<close> with
  the state and the effects reached so far. A run that never makes the throwing call is
  \<open>Completed\<close>, with the number of calls still to go before the throwing one.
\<close>

datatype token_run = Completed bridge "effect list" nat | Threw bridge "effect list"

function sendTokenToWebView_until :: "nat \<Rightarrow> string \<Rightarrow> bridge \<Rightarrow> token_run"
  and drainPending_until :: "nat \<Rightarrow> string \<Rightarrow> bridge \<Rightarrow> token_run"
where
  "sendTokenToWebView_until k token s =
     (if token = [] then Completed s [] k
      else if webviewRef s \<and> k = 0 then Threw s []
      else (case drainPending_until (if webviewRef s then k - 1 else k) token s of
              Completed s' out k' \<Rightarrow>
                Completed s' (sendResponseToWeb ''resolveToken'' (Some (JStr token)) s @ out) k'
            | Threw s' out \<Rightarrow>
                Threw s' (sendResponseToWeb ''resolveToken'' (Some (JStr token)) s @ out)))"
| "drainPending_until k token s =
     (case pendingTokenRequests s of
        [] \<Rightarrow> Completed s [] k
      | SendTokenToWebView i # rest \<Rightarrow>
          (case sendTokenToWebView_until k token (s\<lparr>pendingTokenRequests := rest\<rparr>) of
             Threw s1 out1 \<Rightarrow> Threw s1 (ContinuationCalled i token # out1)
           | Completed s1 out1 k1 \<Rightarrow>
               (case drainPending_until k1 token s1 of
                  Threw s2 out2 \<Rightarrow> Threw s2 (ContinuationCalled i token # out1 @ out2)
                | Completed s2 out2 k2 \<Rightarrow>
                    Completed s2 (ContinuationCalled i token # out1 @ out2) k2)))"
  by pat_completeness auto

text \<open>The state a run ends in, for the termination proof.\<close>

fun finalState :: "token_run \<Rightarrow> bridge" where
  "finalState (Completed s out k) = s"
| "finalState (Threw s out) = s"

lemma queue_shrinks_until:
  "sendTokenToWebView_until_drainPending_until_dom (Inl (k, token, s)) \<Longrightarrow>
     length (pendingTokenRequests (finalState (sendTokenToWebView_until k token s)))
       \<le> length (pendingTokenRequests s)"
  "sendTokenToWebView_until_drainPending_until_dom (Inr (k, token, s)) \<Longrightarrow>
     length (pendingTokenRequests (finalState (drainPending_until k token s)))
       \<le> length (pendingTokenRequests s)"
proof (induct rule: sendTokenToWebView_until_drainPending_until.pinduct)
  case (1 k token s)
  then show ?case
    by (auto simp: sendTokenToWebView_until.psimps split: token_run.splits)
next
  case (2 k token s)
  show ?case
  proof (cases "pendingTokenRequests s")
    case Nil
    with 2(1) show ?thesis by (simp add: drainPending_until.psimps)
  next
    case (Cons c rest)
    obtain i where c: "c = SendTokenToWebView i" by (cases c)
    show ?thesis
    proof (cases "sendTokenToWebView_until k token (s\<lparr>pendingTokenRequests := rest\<rparr>)")
      case (Threw s1 out1)
      with 2(2)[of c rest i] Cons c have "length (pendingTokenRequests s1) \<le> length rest"
        by simp
      with 2(1) Cons c Threw show ?thesis by (simp add: drainPending_until.psimps)
    next
      case (Completed s1 out1 k1)
      with 2(2)[of c rest i] Cons c have a: "length (pendingTokenRequests s1) \<le> length rest"
        by simp
      have b: "length (pendingTokenRequests (finalState (drainPending_until k1 token s1)))
                 \<le> length (pendingTokenRequests s1)"
        using 2(3)[of c rest i s1 out1 k1] Cons c Completed by simp
      from 2(1) Cons c Completed a b show ?thesis
        by (cases "drainPending_until k1 token s1") (simp_all add: drainPending_until.psimps)
    qed
  qed
qed

termination sendTokenToWebView_until
proof (relation "measure (\<lambda>x. case x of
          Inl (k, t, s) \<Rightarrow> 2 * length (pendingTokenRequests s) + 1
        | Inr (k, t, s) \<Rightarrow> 2 * length (pendingTokenRequests s))", goal_cases)
  case 1
  show ?case by simp
next
  case (2 k token s)
  then show ?case by simp
next
  case (3 k token s c rest i)
  then show ?case by simp
next
  case (4 k token s c rest i s1 out1 k1)
  have "finalState (sendTokenToWebView_until k token (s\<lparr>pendingTokenRequests := rest\<rparr>)) = s1"
    using 4 by simp
  with queue_shrinks_until(1)[of k token "s\<lparr>pendingTokenRequests := rest\<rparr>"] 4 show ?case
    by simp
qed

declare sendTokenToWebView_until.simps [simp del] drainPending_until.simps [simp del]

text \<open>
  The outcome of a fetch: the value of the clock and, when the push of the token fails,
  the number of \<^verbatim>\<open>injectJavaScript\<close> calls that return before the one that throws, with
  what it throws. \<^verbatim>\<open>setAuthToken\<close> has run before the push, so the token is stored
  whether or not the push fails.
\<close>

datatype fetch_outcome = TokenAt nat | InjectThrows nat nat thrown

definition fetchAuthToken :: "fetch_outcome \<Rightarrow> bridge \<Rightarrow> bridge \<times> effect list" where
  "fetchAuthToken r s =
     (case r of
        TokenAt now \<Rightarrow>
          sendTokenToWebView (''auth_token_'' @ decimal now)
            (s\<lparr>authToken := Some (''auth_token_'' @ decimal now)\<rparr>)
      | InjectThrows now k e \<Rightarrow>
          (case sendTokenToWebView_until k (''auth_token_'' @ decimal now)
                  (s\<lparr>authToken := Some (''auth_token_'' @ decimal now)\<rparr>) of
             Completed s' out k' \<Rightarrow> (s', out)
           | Threw s' out \<Rightarrow>
               (s', out @ Console_error ''Token fetch error:'' (Some e)
                      # handleAlert (Some (JStr ''Authentication Error''))
                          (Some (JStr ''Failed to authenticate user. Please try again.'')) None)))"

subsection \<open>Local storage\<close>

text \<open>
  AsyncStorage is a library outside the repository, a wrapper over a native module. What
  the source fixes is the call; the rest is the environment of the call, a parameter:
  \<^item> \<open>nativeError\<close>: what the native module throws in this call, if it does;
  \<^item> \<open>nullValueError\<close>: what the library throws, before it reaches the native module,
    when the value to write is \<^verbatim>\<open>null\<close> or \<^verbatim>\<open>undefined\<close>;
  \<^item> \<open>nativeText\<close>: the text the native module stores when it is handed a value that
    is not a string (the library only warns about such a value and passes it on).
  A string is stored as it is. A read returns the stored string, and \<^verbatim>\<open>null\<close> for a key
  that is absent or holds the empty string (the library tests the stored text for
  truthiness).
\<close>

record storage_call =
  nativeError :: "thrown option"
  nullValueError :: thrown
  nativeText :: "json \<Rightarrow> string"

definition AsyncStorage_setItem ::
  "string \<Rightarrow> jsval \<Rightarrow> storage_call \<Rightarrow> (string \<rightharpoonup> string) \<Rightarrow> thrown + (string \<rightharpoonup> string)" where
  "AsyncStorage_setItem k v io store =
     (case v of
        None \<Rightarrow> Inl (nullValueError io)
      | Some JNull \<Rightarrow> Inl (nullValueError io)
      | Some x \<Rightarrow>
          (case nativeError io of
             Some e \<Rightarrow> Inl e
           | None \<Rightarrow>
               Inr (store(k \<mapsto> (case x of JStr text \<Rightarrow> text | _ \<Rightarrow> nativeText io x)))))"

definition AsyncStorage_getItem ::
  "string \<Rightarrow> storage_call \<Rightarrow> (string \<rightharpoonup> string) \<Rightarrow> thrown + string option" where
  "AsyncStorage_getItem k io store =
     (case nativeError io of
        Some e \<Rightarrow> Inl e
      | None \<Rightarrow>
          Inr (case store k of None \<Rightarrow> None | Some text \<Rightarrow> if text = [] then None else Some text))"

text \<open>\<^verbatim>\<open>error instanceof Error ? error.message : fallback\<close>.\<close>

definition errMessage :: "thrown \<Rightarrow> string \<Rightarrow> string" where
  "errMessage e fallback = (case e of Error m \<Rightarrow> m | NonError \<Rightarrow> fallback)"

text \<open>The template \<^verbatim>\<open>microapp_${appId}_${key}\<close>, or what converting the key throws.\<close>

definition storageKey :: "MicroAppParams \<Rightarrow> jsval \<Rightarrow> thrown + string" where
  "storageKey P key =
     (case template key of
        Inl e \<Rightarrow> Inl e
      | Inr text \<Rightarrow> Inr (''microapp_'' @ appId P @ ''_'' @ text))"

text \<open>In both handlers the template literal stands inside the \<^verbatim>\<open>try\<close>, so what it
  throws is answered with the handler's reject response.\<close>

definition handleSaveLocalData ::
  "MicroAppParams \<Rightarrow> jsval \<Rightarrow> jsval \<Rightarrow> storage_call \<Rightarrow> bridge \<Rightarrow> bridge \<times> effect list" where
  "handleSaveLocalData P key v io s =
     (case storageKey P key of
        Inl e \<Rightarrow>
          (s, sendResponseToWeb ''rejectSaveLocalData''
                (Some (JStr (errMessage e ''Storage error''))) s)
      | Inr k \<Rightarrow>
          (case AsyncStorage_setItem k v io (asyncStorage s) of
             Inr store' \<Rightarrow>
               (s\<lparr>asyncStorage := store'\<rparr>, sendResponseToWeb ''resolveSaveLocalData'' None s)
           | Inl e \<Rightarrow>
               (s, sendResponseToWeb ''rejectSaveLocalData''
                     (Some (JStr (errMessage e ''Storage error''))) s)))"

definition handleGetLocalData ::
  "MicroAppParams \<Rightarrow> jsval \<Rightarrow> storage_call \<Rightarrow> bridge \<Rightarrow> bridge \<times> effect list" where
  "handleGetLocalData P key io s =
     (case storageKey P key of
        Inl e \<Rightarrow>
          (s, sendResponseToWeb ''rejectGetLocalData''
                (Some (JStr (errMessage e ''Storage error''))) s)
      | Inr k \<Rightarrow>
          (case AsyncStorage_getItem k io (asyncStorage s) of
             Inr found \<Rightarrow>
               (s, sendResponseToWeb ''resolveGetLocalData''
                     (Some (JObj [(''value'', case found of None \<Rightarrow> JNull | Some x \<Rightarrow> JStr x)]))
                     s)
           | Inl e \<Rightarrow>
               (s, sendResponseToWeb ''rejectGetLocalData''
                     (Some (JStr (errMessage e ''Storage error''))) s)))"

subsection \<open>Files and the scanner\<close>

text \<open>The message of the alert is a template literal on the file name, evaluated inside
  the \<^verbatim>\<open>try\<close> before the alert is shown.\<close>

definition handleFileDownload ::
  "MicroAppParams \<Rightarrow> jsval \<Rightarrow> jsval \<Rightarrow> bridge \<Rightarrow> bridge \<times> effect list" where
  "handleFileDownload P fileName payload s =
     (if allowsFileAccess (appConfig P) then
        (case template fileName of
           Inl e \<Rightarrow>
             (s, sendResponseToWeb ''rejectDownload''
                   (Some (JStr (errMessage e ''Download failed''))) s)
         | Inr name \<Rightarrow>
             (s, handleAlert (Some (JStr ''Download''))
                   (Some (JStr (''File '' @ [CHR 0x22] @ name @ [CHR 0x22]
                                 @ '' downloaded successfully.''))) None
                 @ sendResponseToWeb ''resolveDownload''
                     (Some (objectOf [(''fileName'', fileName), (''success'', Some (JBool True))])) s))
      else
        (s, sendResponseToWeb ''rejectDownload''
              (Some (JStr (errMessage (Error ''File access not permitted for this app'')
                             ''Download failed''))) s))"

definition handleQrScanResult :: "string \<Rightarrow> bridge \<Rightarrow> bridge \<times> effect list" where
  "handleQrScanResult qrData s =
     (s\<lparr>isScannerVisible := False\<rparr>, sendResponseToWeb ''resolveQrCode'' (Some (JStr qrData)) s)"

subsection \<open>The message handler\<close>

text \<open>
  An event of \<^verbatim>\<open>onMessage\<close>. \<open>nativeEvent_data\<close> is \<^verbatim>\<open>event.nativeEvent.data\<close> as
  \<^verbatim>\<open>JSON.parse\<close> reads it: a syntax error, or the value of the text. \<open>arrival\<close> is the
  ghost arrival number of the message.
\<close>

datatype parse_result = SyntaxError | Value json

record WebViewMessageEvent =
  nativeEvent_data :: parse_result
  arrival :: nat

text \<open>\<^verbatim>\<open>message.data.name\<close>.\<close>

definition dataField :: "json \<Rightarrow> string \<Rightarrow> thrown + jsval" where
  "dataField message name =
     (case getProp (Some message) ''data'' of Inl e \<Rightarrow> Inl e | Inr d \<Rightarrow> getProp d name)"

text \<open>The \<^verbatim>\<open>catch\<close> of \<^verbatim>\<open>handleMessage\<close>.\<close>

definition caught :: "thrown \<Rightarrow> bridge \<Rightarrow> bridge \<times> effect list" where
  "caught e s = (s, [Console_error ''Error handling WebView message:'' (Some e)])"

definition handleMessage ::
  "MicroAppParams \<Rightarrow> TopicTable \<Rightarrow> WebViewMessageEvent \<Rightarrow> storage_call \<Rightarrow> bridge
     \<Rightarrow> bridge \<times> effect list" where
  "handleMessage P T ev io s =
     (case nativeEvent_data ev of
        SyntaxError \<Rightarrow> caught (Error ''SyntaxError'') s
      | Value message \<Rightarrow>
          (case getProp (Some message) ''topic'' of
             Inl e \<Rightarrow> caught e s
           | Inr topic \<Rightarrow>
               if \<not> truthy topic then
                 (s, [Console_warn ''Invalid message format: Missing topic'' None])
               else if topic = Some (JStr (TOKEN T)) then
                 (case authToken s of
                    None \<Rightarrow>
                      (s\<lparr>pendingTokenRequests :=
                           pendingTokenRequests s @ [SendTokenToWebView (arrival ev)]\<rparr>, [])
                  | Some held \<Rightarrow>
                      if held = [] then
                        (s\<lparr>pendingTokenRequests :=
                             pendingTokenRequests s @ [SendTokenToWebView (arrival ev)]\<rparr>, [])
                      else sendTokenToWebView held s)
               else if topic = Some (JStr (QR_REQUEST T)) then
                 (s\<lparr>isScannerVisible := True\<rparr>, [])
               else if topic = Some (JStr (SAVE_LOCAL_DATA T)) then
                 (case dataField message ''key'' of
                    Inl e \<Rightarrow> caught e s
                  | Inr key \<Rightarrow>
                      (case dataField message ''value'' of
                         Inl e \<Rightarrow> caught e s
                       | Inr v \<Rightarrow> handleSaveLocalData P key v io s))
               else if topic = Some (JStr (GET_LOCAL_DATA T)) then
                 (case dataField message ''key'' of
                    Inl e \<Rightarrow> caught e s
                  | Inr key \<Rightarrow> handleGetLocalData P key io s)
               else if topic = Some (JStr (ALERT T)) then
                 (case dataField message ''title'' of
                    Inl e \<Rightarrow> caught e s
                  | Inr title \<Rightarrow>
                      (case dataField message ''message'' of
                         Inl e \<Rightarrow> caught e s
                       | Inr msg \<Rightarrow>
                           (case dataField message ''buttonText'' of
                              Inl e \<Rightarrow> caught e s
                            | Inr buttonText \<Rightarrow> (s, handleAlert title msg buttonText))))
               else if topic = Some (JStr (CONFIRM_ALERT T)) then
                 (case dataField message ''title'' of
                    Inl e \<Rightarrow> caught e s
                  | Inr title \<Rightarrow>
                      (case dataField message ''message'' of
                         Inl e \<Rightarrow> caught e s
                       | Inr msg \<Rightarrow>
                           (case dataField message ''cancelButtonText'' of
                              Inl e \<Rightarrow> caught e s
                            | Inr cancelText \<Rightarrow>
                                (case dataField message ''confirmButtonText'' of
                                   Inl e \<Rightarrow> caught e s
                                 | Inr confirmText \<Rightarrow>
                                     (s, handleConfirmAlert title msg cancelText confirmText)))))
               else if topic = Some (JStr ''download_file'') then
                 (case dataField message ''fileName'' of
                    Inl e \<Rightarrow> caught e s
                  | Inr fileName \<Rightarrow>
                      (case dataField message ''data'' of
                         Inl e \<Rightarrow> caught e s
                       | Inr payload \<Rightarrow> handleFileDownload P fileName payload s))
               else if topic = Some (JStr ''upload_file'') then
                 (s, sendResponseToWeb ''resolveUpload''
                       (Some (objectOf [(''success'', Some (JBool True))])) s)
               else (s, [Console_warn ''Unknown bridge topic:'' topic])))"

subsection \<open>Loading, failing and retrying\<close>

definition handleWebViewError :: "bridge \<Rightarrow> bridge \<times> effect list" where
  "handleWebViewError s =
     (s\<lparr>hasError := True, isLoading := False\<rparr>, [Console_error ''WebView error:'' None])"

text \<open>\<^verbatim>\<open>setHasError(false); setIsLoading(true); webviewRef.current?.reload()\<close>.\<close>

definition reloadWebView :: "bridge \<Rightarrow> bridge \<times> effect list" where
  "reloadWebView s =
     (s\<lparr>hasError := False, isLoading := True\<rparr>, if webviewRef s then [WebView_reload] else [])"

text \<open>
  The three lifecycle states, read off the two flags the way the component renders them:
  the retry screen stands in place of the WebView while \<open>hasError\<close>, the loading
  indicator shows while \<open>isLoading\<close>.
\<close>

datatype lifecycle = Loading | Ready | Errored

definition lifecycleOf :: "bridge \<Rightarrow> lifecycle" where
  "lifecycleOf s = (if hasError s then Errored else if isLoading s then Loading else Ready)"

subsection \<open>Rendering\<close>

datatype view =
    MicroAppFileNotFound
  | WebViewHtml string
  | WebViewUri string
  | MicroAppNotAvailable

definition truthyStr :: "string option \<Rightarrow> bool" where
  "truthyStr v = (case v of None \<Rightarrow> False | Some x \<Rightarrow> x \<noteq> [])"

definition renderWebView :: "MicroAppParams \<Rightarrow> bridge \<Rightarrow> view" where
  "renderWebView P s =
     (if webUri s = ''ERROR'' then MicroAppFileNotFound
      else if appId P \<noteq> [] \<and> webViewUri P = Some ''local'' \<and> webUri s \<noteq> []
              \<and> webUri s \<noteq> ''ERROR'' then WebViewHtml (webUri s)
      else if isDeveloper (appConfig P) \<and> truthyStr (webViewUri P)
              \<and> webViewUri P \<noteq> Some ''local'' then
        (case webViewUri P of Some u \<Rightarrow> WebViewUri u | None \<Rightarrow> MicroAppNotAvailable)
      else if truthyStr (webViewUri P) \<and> webViewUri P \<noteq> Some ''local'' then
        (case webViewUri P of Some u \<Rightarrow> WebViewUri u | None \<Rightarrow> MicroAppNotAvailable)
      else MicroAppNotAvailable)"

fun mountsWebView :: "view \<Rightarrow> bool" where
  "mountsWebView (WebViewHtml html) = True"
| "mountsWebView (WebViewUri u) = True"
| "mountsWebView v = False"

text \<open>
  After a handler has run React renders again: \<^verbatim>\<open>hasError ? renderError() : renderWebView()\<close>.
  The ref is attached exactly when that render mounts a WebView.
\<close>

definition commit :: "MicroAppParams \<Rightarrow> bridge \<Rightarrow> bridge" where
  "commit P s = s\<lparr>webviewRef := (\<not> hasError s \<and> mountsWebView (renderWebView P s))\<rparr>"

subsection \<open>The session\<close>

datatype event =
    LoadStart
  | LoadEnd
  | LoadError
  | Message WebViewMessageEvent storage_call
  | TryAgain
  | SetUrl string
  | Scan string
  | CloseScanner
  | Press native_action
  | LocalContent "string option"

text \<open>The handler the component attaches to each event.\<close>

fun handler :: "MicroAppParams \<Rightarrow> TopicTable \<Rightarrow> event \<Rightarrow> bridge \<Rightarrow> bridge \<times> effect list" where
  "handler P T LoadStart s = (s\<lparr>isLoading := True\<rparr>, [])"
| "handler P T LoadEnd s = (s\<lparr>isLoading := False\<rparr>, [])"
| "handler P T LoadError s = handleWebViewError s"
| "handler P T (Message ev io) s = handleMessage P T ev io s"
| "handler P T TryAgain s = reloadWebView s"
| "handler P T (SetUrl url) s =
     (if url \<noteq> [] then reloadWebView (s\<lparr>webUri := url\<rparr>) else (s, []))"
| "handler P T (Scan qrData) s = handleQrScanResult qrData s"
| "handler P T CloseScanner s = (s\<lparr>isScannerVisible := False\<rparr>, [])"
| "handler P T (Press (SendResponse method d)) s = (s, sendResponseToWeb method d s)"
| "handler P T (LocalContent c) s =
     (s\<lparr>webUri := (case c of Some html \<Rightarrow> html | None \<Rightarrow> ''ERROR'')\<rparr>, [])"

text \<open>
  An event reaches its handler only while the element that raises it is on the screen:
  the WebView's events while it is mounted, the retry button while the retry screen is
  shown, the URL button in developer mode, the scanner's events while it is visible.
\<close>

fun enabled :: "MicroAppParams \<Rightarrow> event \<Rightarrow> bridge \<Rightarrow> bool" where
  "enabled P LoadStart s = webviewRef s"
| "enabled P LoadEnd s = webviewRef s"
| "enabled P LoadError s = webviewRef s"
| "enabled P (Message ev io) s = webviewRef s"
| "enabled P TryAgain s = hasError s"
| "enabled P (SetUrl url) s = isDeveloper (appConfig P)"
| "enabled P (Scan qrData) s = isScannerVisible s"
| "enabled P CloseScanner s = isScannerVisible s"
| "enabled P (Press a) s = True"
| "enabled P (LocalContent c) s =
     (appId P \<noteq> [] \<and> (\<not> truthyStr (webViewUri P) \<or> webViewUri P = Some ''local''))"

definition step :: "MicroAppParams \<Rightarrow> TopicTable \<Rightarrow> event \<Rightarrow> bridge \<Rightarrow> bridge \<times> effect list" where
  "step P T e s =
     (if enabled P e s then (case handler P T e s of (s', out) \<Rightarrow> (commit P s', out))
      else (s, []))"

fun run :: "MicroAppParams \<Rightarrow> TopicTable \<Rightarrow> event list \<Rightarrow> bridge \<Rightarrow> bridge" where
  "run P T [] s = s"
| "run P T (e # es) s = run P T es (fst (step P T e s))"

definition initialState :: "(string \<rightharpoonup> string) \<Rightarrow> bridge" where
  "initialState store =
     \<lparr> isLoading = True, hasError = False, isScannerVisible = False, authToken = None,
       webUri = [], pendingTokenRequests = [], webviewRef = False, asyncStorage = store \<rparr>"

text \<open>
  The first render and the two effects that follow it: the credential fetch when the
  session requires authentication and has exchange material, and the choice of the
  content source (a local application's content arrives later, as \<open>LocalContent\<close>).
\<close>

definition mount ::
  "MicroAppParams \<Rightarrow> fetch_outcome \<Rightarrow> (string \<rightharpoonup> string) \<Rightarrow> bridge \<times> effect list" where
  "mount P fetch store =
     (case (if requiresAuth (appConfig P) \<and> truthyStr (exchangedToken P)
               \<and> truthyStr (clientId P)
            then fetchAuthToken fetch (commit P (initialState store))
            else (commit P (initialState store), [])) of
        (s1, out) \<Rightarrow>
          (commit P
             (if appId P \<noteq> [] \<and> (\<not> truthyStr (webViewUri P) \<or> webViewUri P = Some ''local'')
              then s1
              else if truthyStr (webViewUri P) then
                (case webViewUri P of Some u \<Rightarrow> s1\<lparr>webUri := u\<rparr> | None \<Rightarrow> s1)
              else s1), out))"

subsection \<open>Vocabulary of the properties\<close>

fun requestOf :: "continuation \<Rightarrow> nat" where
  "requestOf (SendTokenToWebView i) = i"

text \<open>
  What draining the queue \<open>q\<close> with \<open>token\<close> does, continuation by continuation: each
  is called, and (being \<^verbatim>\<open>sendTokenToWebView\<close>) sends the token to the WebView unless the
  token is empty.
\<close>

definition resolutions :: "string \<Rightarrow> bridge \<Rightarrow> continuation list \<Rightarrow> effect list" where
  "resolutions token s q =
     concat (map (\<lambda>c. ContinuationCalled (requestOf c) token #
          (if token = [] then [] else sendResponseToWeb ''resolveToken'' (Some (JStr token)) s)) q)"

text \<open>
  What a run of \<^verbatim>\<open>sendTokenToWebView\<close> has done when the push that follows the calls of
  the continuations \<open>q\<close> throws: before each of them the token was pushed, then the
  continuation was called.
\<close>

definition interrupted :: "string \<Rightarrow> bridge \<Rightarrow> continuation list \<Rightarrow> effect list" where
  "interrupted token s q =
     concat (map (\<lambda>c. sendResponseToWeb ''resolveToken'' (Some (JStr token)) s
                       @ [ContinuationCalled (requestOf c) token]) q)"

text \<open>A message whose text parses to an object with the token topic.\<close>

definition isTokenRequest :: "TopicTable \<Rightarrow> WebViewMessageEvent \<Rightarrow> bool" where
  "isTokenRequest T ev =
     (case nativeEvent_data ev of
        SyntaxError \<Rightarrow> False
      | Value message \<Rightarrow> getProp (Some message) ''topic'' = Inr (Some (JStr (TOKEN T))))"

text \<open>Messages handled one after the other, in the order of the list.\<close>

fun handleAll ::
  "MicroAppParams \<Rightarrow> TopicTable \<Rightarrow> (WebViewMessageEvent \<times> storage_call) list \<Rightarrow> bridge \<Rightarrow> bridge" where
  "handleAll P T [] s = s"
| "handleAll P T (r # rs) s = handleAll P T rs (fst (handleMessage P T (fst r) (snd r) s))"

fun isLog :: "effect \<Rightarrow> bool" where
  "isLog (Console_warn text v) = True"
| "isLog (Console_error text e) = True"
| "isLog e = False"

text \<open>The topics the \<^verbatim>\<open>switch\<close> of \<^verbatim>\<open>handleMessage\<close> has a case for.\<close>

definition registeredTopics :: "TopicTable \<Rightarrow> string list" where
  "registeredTopics T =
     [TOKEN T, QR_REQUEST T, SAVE_LOCAL_DATA T, GET_LOCAL_DATA T, ALERT T, CONFIRM_ALERT T,
      ''download_file'', ''upload_file'']"

text \<open>
  A message the router cannot dispatch: its text is not JSON, or the value has no topic
  to read (\<^verbatim>\<open>null\<close>), or the topic is missing or falsy, or no case matches the topic.
\<close>

definition undispatchable :: "TopicTable \<Rightarrow> WebViewMessageEvent \<Rightarrow> bool" where
  "undispatchable T ev =
     (case nativeEvent_data ev of
        SyntaxError \<Rightarrow> True
      | Value message \<Rightarrow>
          (case getProp (Some message) ''topic'' of
             Inl e \<Rightarrow> True
           | Inr topic \<Rightarrow>
               \<not> truthy topic \<or> topic \<notin> set (map (\<lambda>t. Some (JStr t)) (registeredTopics T))))"

text \<open>The topic constants are pairwise different and none is empty.\<close>

definition wellFormedTopics :: "TopicTable \<Rightarrow> bool" where
  "wellFormedTopics T = (distinct (registeredTopics T) \<and> [] \<notin> set (registeredTopics T))"

text \<open>\<^verbatim>\<open>message.data\<close> is a value whose properties can be read.\<close>

definition hasPayload :: "json \<Rightarrow> bool" where
  "hasPayload message =
     (case getProp (Some message) ''data'' of Inr (Some d) \<Rightarrow> d \<noteq> JNull | _ \<Rightarrow> False)"

text \<open>A handler's result with the two lifecycle flags set afterwards.\<close>

definition withFlags :: "bool \<Rightarrow> bool \<Rightarrow> bridge \<times> effect list \<Rightarrow> bridge \<times> effect list" where
  "withFlags a b r = (case r of (s', out) \<Rightarrow> (s'\<lparr>isLoading := a, hasError := b\<rparr>, out))"

text \<open>
  The flags never contradict each other: no WebView is mounted while \<open>hasError\<close>, and
  the loading flag is not set while \<open>hasError\<close>.
\<close>

definition flagsInvariant :: "bridge \<Rightarrow> bool" where
  "flagsInvariant s = (\<not> (webviewRef s \<and> hasError s) \<and> \<not> (hasError s \<and> isLoading s))"

subsection \<open>Concrete sessions\<close>

text \<open>
  Modelled from the spec: the values of the topic constants of \<^verbatim>\<open>@/utils/bridge\<close>, which
  is not among the source files. The specification lists the recognized topics as
  TOKEN, QR_REQUEST, SAVE_LOCAL_DATA, GET_LOCAL_DATA, ALERT and CONFIRM_ALERT. Only the
  concrete examples use this table; every general statement holds for any table.
\<close>

definition specTopics :: TopicTable where
  "specTopics =
     \<lparr> TOKEN = ''TOKEN'', QR_REQUEST = ''QR_REQUEST'', SAVE_LOCAL_DATA = ''SAVE_LOCAL_DATA'',
       GET_LOCAL_DATA = ''GET_LOCAL_DATA'', ALERT = ''ALERT'', CONFIRM_ALERT = ''CONFIRM_ALERT'' \<rparr>"

text \<open>The payslip viewer, with the parameters the home screen passes when it opens it.\<close>

definition payslipViewer :: MicroAppParams where
  "payslipViewer =
     \<lparr> appId = ''payslip-viewer'', appName = ''Payslip Viewer'', webViewUri = Some ''local'',
       clientId = Some ''payslip-viewer'', exchangedToken = Some ''demo_token_123'' \<rparr>"

text \<open>An environment in which the storage calls of the examples succeed; no example
  writes a value that is not a string.\<close>

definition storageWorks :: storage_call where
  "storageWorks =
     \<lparr> nativeError = None, nullValueError = Error ''AsyncStorage: null value'',
       nativeText = (\<lambda>v. []) \<rparr>"

definition tokenRequest :: "nat \<Rightarrow> WebViewMessageEvent \<times> storage_call" where
  "tokenRequest i =
     (\<lparr> nativeEvent_data = Value (JObj [(''topic'', JStr ''TOKEN'')]), arrival = i \<rparr>,
      storageWorks)"

text \<open>A session in which one token request waits and the WebView is mounted.\<close>

definition waitingForToken :: bridge where
  "waitingForToken =
     (initialState Map.empty)\<lparr>pendingTokenRequests := [SendTokenToWebView 1], webviewRef := True\<rparr>"

text \<open>A session in which two token requests wait and the WebView is mounted.\<close>

definition twoWaiting :: bridge where
  "twoWaiting =
     (initialState Map.empty)\<lparr>pendingTokenRequests := [SendTokenToWebView 1, SendTokenToWebView 2],
        webviewRef := True\<rparr>"

definition notJson :: WebViewMessageEvent where
  "notJson = \<lparr> nativeEvent_data = SyntaxError, arrival = 3 \<rparr>"

definition noTopic :: WebViewMessageEvent where
  "noTopic =
     \<lparr> nativeEvent_data = Value (JObj [(''data'', JObj [(''key'', JStr ''k'')])]), arrival = 4 \<rparr>"

definition unknownTopic :: WebViewMessageEvent where
  "unknownTopic =
     \<lparr> nativeEvent_data = Value (JObj [(''topic'', JStr ''GOOGLE_LOGIN'')]), arrival = 5 \<rparr>"

text \<open>The documentation's example application \<^verbatim>\<open>government_payslip\<close>, and an application
  whose identity is the part of that identity before the underscore.\<close>

definition government :: MicroAppParams where
  "government =
     \<lparr> appId = ''government'', appName = ''Government Portal'',
       webViewUri = Some ''https://portal.gov.lk'', clientId = Some ''gov_client_001'',
       exchangedToken = Some ''auth_token_abc'' \<rparr>"

definition governmentPayslip :: MicroAppParams where
  "governmentPayslip =
     \<lparr> appId = ''government_payslip'', appName = ''Employee Payslip'',
       webViewUri = Some ''https://payslip.gov.lk'', clientId = Some ''gov_client_123'',
       exchangedToken = Some ''auth_token_xyz'' \<rparr>"

definition uploadRequest :: WebViewMessageEvent where
  "uploadRequest =
     \<lparr> nativeEvent_data = Value (JObj [(''topic'', JStr ''upload_file'')]), arrival = 8 \<rparr>"

definition saveWithoutPayload :: WebViewMessageEvent where
  "saveWithoutPayload =
     \<lparr> nativeEvent_data = Value (JObj [(''topic'', JStr ''SAVE_LOCAL_DATA'')]), arrival = 6 \<rparr>"

definition saveRequest :: WebViewMessageEvent where
  "saveRequest =
     \<lparr> nativeEvent_data =
         Value (JObj [(''topic'', JStr ''SAVE_LOCAL_DATA''),
                      (''data'', JObj [(''key'', JStr ''user_preference''),
                                       (''value'', JStr ''dark_mode'')])]),
       arrival = 2 \<rparr>"

text \<open>The remote payslip application right after its start: loading, WebView mounted.\<close>

definition loadingRemoteSession :: bridge where
  "loadingRemoteSession = fst (mount governmentPayslip (TokenAt 42) Map.empty)"

section \<open>Properties\<close>

subsection \<open>The token queue in closed form\<close>

lemma sendResponseToWeb_queue [simp]:
  "sendResponseToWeb m d (s\<lparr>pendingTokenRequests := q\<rparr>) = sendResponseToWeb m d s"
  by (simp add: sendResponseToWeb_def)

lemma resolutions_queue [simp]:
  "resolutions token (s\<lparr>pendingTokenRequests := q\<rparr>) q' = resolutions token s q'"
  by (simp add: resolutions_def)

lemma resolutions_Cons:
  "resolutions token s (SendTokenToWebView i # q) =
     ContinuationCalled i token #
       (if token = [] then [] else sendResponseToWeb ''resolveToken'' (Some (JStr token)) s)
       @ resolutions token s q"
  by (simp add: resolutions_def)

lemma resolutions_Nil [simp]: "resolutions token s [] = []"
  by (simp add: resolutions_def)

lemma token_queue_closed_form:
  "sendTokenToWebView token s =
     (if token = [] then (s, [])
      else (s\<lparr>pendingTokenRequests := []\<rparr>,
            sendResponseToWeb ''resolveToken'' (Some (JStr token)) s
              @ resolutions token s (pendingTokenRequests s)))"
  "drainPending token s =
     (s\<lparr>pendingTokenRequests := []\<rparr>, resolutions token s (pendingTokenRequests s))"
proof (induct token s and token s rule: sendTokenToWebView_drainPending.induct)
  case (1 token s)
  show ?case
  proof (cases "token = []")
    case True
    then show ?thesis by (simp add: sendTokenToWebView.simps)
  next
    case False
    with 1 show ?thesis by (simp add: sendTokenToWebView.simps)
  qed
next
  case (2 token s)
  show ?case
  proof (cases "pendingTokenRequests s")
    case Nil
    then have "s\<lparr>pendingTokenRequests := []\<rparr> = s" by (cases s) simp
    with Nil show ?thesis by (simp add: drainPending.simps)
  next
    case (Cons c rest)
    obtain i where c: "c = SendTokenToWebView i" by (cases c)
    let ?s' = "s\<lparr>pendingTokenRequests := rest\<rparr>"
    obtain s1 out1 where r1: "sendTokenToWebView token ?s' = (s1, out1)"
      by (cases "sendTokenToWebView token ?s'")
    have ih1: "sendTokenToWebView token ?s' =
       (if token = [] then (?s', [])
        else (?s'\<lparr>pendingTokenRequests := []\<rparr>,
              sendResponseToWeb ''resolveToken'' (Some (JStr token)) ?s'
                @ resolutions token ?s' (pendingTokenRequests ?s')))"
      using 2(1)[of c rest i] Cons c by simp
    have ih2: "drainPending token s1 =
       (s1\<lparr>pendingTokenRequests := []\<rparr>, resolutions token s1 (pendingTokenRequests s1))"
      using 2(2)[of c rest i s1 out1] Cons c r1 by simp
    show ?thesis
    proof (cases "token = []")
      case True
      with ih1 r1 have s1: "s1 = ?s'" and o1: "out1 = []" by simp_all
      show ?thesis
        using Cons c r1 ih2 s1 o1 True
        by (subst drainPending.simps) (simp add: resolutions_Cons)
    next
      case False
      with ih1 r1 have s1: "s1 = s\<lparr>pendingTokenRequests := []\<rparr>"
        and o1: "out1 = sendResponseToWeb ''resolveToken'' (Some (JStr token)) s
                   @ resolutions token s rest" by simp_all
      show ?thesis
        using Cons c r1 ih2 s1 o1 False
        by (subst drainPending.simps) (simp add: resolutions_Cons)
    qed
  qed
qed

lemma token_request_queued:
  assumes "TOKEN T \<noteq> []" "authToken s = None" "isTokenRequest T ev"
  shows "handleMessage P T ev io s =
           (s\<lparr>pendingTokenRequests := pendingTokenRequests s @ [SendTokenToWebView (arrival ev)]\<rparr>, [])"
  using assms
  by (auto simp: handleMessage_def isTokenRequest_def split: parse_result.splits)

lemma handleAll_queue:
  assumes "TOKEN T \<noteq> []"
  shows "authToken s = None \<Longrightarrow> \<forall>r\<in>set rs. isTokenRequest T (fst r) \<Longrightarrow>
     handleAll P T rs s =
       s\<lparr>pendingTokenRequests :=
            pendingTokenRequests s @ map (\<lambda>r. SendTokenToWebView (arrival (fst r))) rs\<rparr>"
proof (induction rs arbitrary: s)
  case Nil
  then show ?case by (cases s) simp
next
  case (Cons r rs)
  have "handleMessage P T (fst r) (snd r) s =
          (s\<lparr>pendingTokenRequests :=
               pendingTokenRequests s @ [SendTokenToWebView (arrival (fst r))]\<rparr>, [])"
    using token_request_queued[OF assms Cons.prems(1)] Cons.prems(2) by simp
  then show ?case
    using Cons.IH[of "s\<lparr>pendingTokenRequests :=
               pendingTokenRequests s @ [SendTokenToWebView (arrival (fst r))]\<rparr>"] Cons.prems
    by simp
qed

lemma continuationCalls_append [simp]:
  "continuationCalls (xs @ ys) = continuationCalls xs @ continuationCalls ys"
  by (simp add: continuationCalls_def)

lemma injected_append [simp]: "injected (xs @ ys) = injected xs @ injected ys"
  by (simp add: injected_def)

lemma continuationCalls_response [simp]: "continuationCalls (sendResponseToWeb m d s) = []"
  by (simp add: continuationCalls_def sendResponseToWeb_def)

lemma injected_response:
  "injected (sendResponseToWeb m d s) = (if webviewRef s then [GuardedCall m d] else [])"
  by (simp add: injected_def sendResponseToWeb_def)

lemma continuationCalls_resolutions:
  "continuationCalls (resolutions token s q) = map (\<lambda>c. (requestOf c, token)) q"
  by (induction q) (simp_all add: resolutions_def continuationCalls_def sendResponseToWeb_def)

lemma injected_resolutions:
  "token \<noteq> [] \<Longrightarrow> injected (resolutions token s q) =
     (if webviewRef s then replicate (length q) (GuardedCall ''resolveToken'' (Some (JStr token)))
      else [])"
  by (induction q) (simp_all add: resolutions_def injected_def sendResponseToWeb_def)

lemma interrupted_Nil [simp]: "interrupted token s [] = []"
  by (simp add: interrupted_def)

lemma interrupted_Cons:
  "interrupted token s (c # q) =
     sendResponseToWeb ''resolveToken'' (Some (JStr token)) s
       @ ContinuationCalled (requestOf c) token # interrupted token s q"
  by (simp add: interrupted_def)

lemma interrupted_queue [simp]:
  "interrupted token (s\<lparr>pendingTokenRequests := q\<rparr>) q' = interrupted token s q'"
  by (simp add: interrupted_def)

lemma token_run_closed_form:
  "sendTokenToWebView_until k token s =
     (if token = [] then Completed s [] k
      else if webviewRef s \<and> k \<le> length (pendingTokenRequests s) then
        Threw (s\<lparr>pendingTokenRequests := drop k (pendingTokenRequests s)\<rparr>)
          (interrupted token s (take k (pendingTokenRequests s)))
      else Completed (s\<lparr>pendingTokenRequests := []\<rparr>)
             (sendResponseToWeb ''resolveToken'' (Some (JStr token)) s
                @ resolutions token s (pendingTokenRequests s))
             (if webviewRef s then k - Suc (length (pendingTokenRequests s)) else k))"
  "drainPending_until k token s =
     (if token \<noteq> [] \<and> webviewRef s \<and> k < length (pendingTokenRequests s) then
        Threw (s\<lparr>pendingTokenRequests := drop (Suc k) (pendingTokenRequests s)\<rparr>)
          (tl (interrupted token s (take (Suc k) (pendingTokenRequests s))))
      else Completed (s\<lparr>pendingTokenRequests := []\<rparr>)
             (resolutions token s (pendingTokenRequests s))
             (if token \<noteq> [] \<and> webviewRef s then k - length (pendingTokenRequests s) else k))"
proof (induct k token s and k token s rule: sendTokenToWebView_until_drainPending_until.induct)
  case (1 k token s)
  have same: "s\<lparr>pendingTokenRequests := pendingTokenRequests s\<rparr> = s" by simp
  show ?case
  proof (cases "token = []")
    case True
    then show ?thesis by (simp add: sendTokenToWebView_until.simps)
  next
    case False
    show ?thesis
    proof (cases "webviewRef s")
      case noRef: False
      with False 1 show ?thesis
        by (simp add: sendTokenToWebView_until.simps sendResponseToWeb_def)
    next
      case ref: True
      show ?thesis
      proof (cases k)
        case 0
        with False ref same show ?thesis by (simp add: sendTokenToWebView_until.simps)
      next
        case (Suc j)
        show ?thesis
        proof (cases "pendingTokenRequests s")
          case Nil
          with False ref Suc 1 show ?thesis
            by (simp add: sendTokenToWebView_until.simps)
        next
          case (Cons c rest)
          with False ref Suc 1 show ?thesis
            by (simp add: sendTokenToWebView_until.simps interrupted_Cons sendResponseToWeb_def)
        qed
      qed
    qed
  qed
next
  case (2 k token s)
  show ?case
  proof (cases "pendingTokenRequests s")
    case Nil
    then have "s\<lparr>pendingTokenRequests := []\<rparr> = s" by (cases s) simp
    with Nil show ?thesis by (simp add: drainPending_until.simps)
  next
    case (Cons c rest)
    obtain i where c: "c = SendTokenToWebView i" by (cases c)
    let ?s' = "s\<lparr>pendingTokenRequests := rest\<rparr>"
    have ih1: "sendTokenToWebView_until k token ?s' =
     (if token = [] then Completed ?s' [] k
      else if webviewRef s \<and> k \<le> length rest then
        Threw (s\<lparr>pendingTokenRequests := drop k rest\<rparr>) (interrupted token s (take k rest))
      else Completed (s\<lparr>pendingTokenRequests := []\<rparr>)
             (sendResponseToWeb ''resolveToken'' (Some (JStr token)) s @ resolutions token s rest)
             (if webviewRef s then k - Suc (length rest) else k))"
      using 2(1)[of c rest i] Cons c by simp
    show ?thesis
    proof (cases "sendTokenToWebView_until k token ?s'")
      case (Threw s1 out1)
      with ih1 have t: "token \<noteq> []" "webviewRef s" "k \<le> length rest"
        and r: "s1 = s\<lparr>pendingTokenRequests := drop k rest\<rparr>" "out1 = interrupted token s (take k rest)"
        by (auto split: if_splits)
      show ?thesis
        using Cons c Threw t r
        by (subst drainPending_until.simps)
           (simp add: interrupted_Cons sendResponseToWeb_def)
    next
      case (Completed s1 out1 k1)
      have ih2: "drainPending_until k1 token s1 =
       (if token \<noteq> [] \<and> webviewRef s1 \<and> k1 < length (pendingTokenRequests s1) then
          Threw (s1\<lparr>pendingTokenRequests := drop (Suc k1) (pendingTokenRequests s1)\<rparr>)
            (tl (interrupted token s1 (take (Suc k1) (pendingTokenRequests s1))))
        else Completed (s1\<lparr>pendingTokenRequests := []\<rparr>)
               (resolutions token s1 (pendingTokenRequests s1))
               (if token \<noteq> [] \<and> webviewRef s1 then k1 - length (pendingTokenRequests s1) else k1))"
        using 2(2)[of c rest i s1 out1 k1] Cons c Completed by simp
      show ?thesis
      proof (cases "token = []")
        case True
        with ih1 Completed have "s1 = ?s'" "out1 = []" "k1 = k" by simp_all
        then show ?thesis
          using Cons c Completed ih2 True
          by (subst drainPending_until.simps) (simp add: resolutions_Cons)
      next
        case False
        with ih1 Completed have n: "\<not> (webviewRef s \<and> k \<le> length rest)"
          and r: "s1 = s\<lparr>pendingTokenRequests := []\<rparr>"
            "out1 = sendResponseToWeb ''resolveToken'' (Some (JStr token)) s @ resolutions token s rest"
            "k1 = (if webviewRef s then k - Suc (length rest) else k)"
          by (auto split: if_splits)
        show ?thesis
          using Cons c Completed ih2 False n r
          by (subst drainPending_until.simps) (auto simp: resolutions_Cons)
      qed
    qed
  qed
qed

lemma sendResponseToWeb_token [simp]:
  "sendResponseToWeb m d (s\<lparr>authToken := a\<rparr>) = sendResponseToWeb m d s"
  by (simp add: sendResponseToWeb_def)

lemma interrupted_token [simp]:
  "interrupted token (s\<lparr>authToken := a\<rparr>) q = interrupted token s q"
  by (simp add: interrupted_def)

lemma resolutions_token [simp]:
  "resolutions token (s\<lparr>authToken := a\<rparr>) q = resolutions token s q"
  by (simp add: resolutions_def)

lemma continuationCalls_interrupted:
  "continuationCalls (interrupted token s q) = map (\<lambda>c. (requestOf c, token)) q"
  by (induction q) (simp_all add: interrupted_def continuationCalls_def sendResponseToWeb_def)

lemma injected_interrupted:
  "injected (interrupted token s q) =
     (if webviewRef s then replicate (length q) (GuardedCall ''resolveToken'' (Some (JStr token)))
      else [])"
  by (induction q) (simp_all add: interrupted_def injected_def sendResponseToWeb_def)

subsection \<open>The lifecycle flags and the message handler\<close>

lemma withFlags_pair [simp]:
  "withFlags a b (s', out) = (s'\<lparr>isLoading := a, hasError := b\<rparr>, out)"
  by (simp add: withFlags_def)

lemma sendResponseToWeb_flags [simp]:
  "sendResponseToWeb m d (s\<lparr>isLoading := a, hasError := b\<rparr>) = sendResponseToWeb m d s"
  by (simp add: sendResponseToWeb_def)

lemma resolutions_flags [simp]:
  "resolutions token (s\<lparr>isLoading := a, hasError := b\<rparr>) q = resolutions token s q"
  by (simp add: resolutions_def)

lemma caught_flags:
  "caught e (s\<lparr>isLoading := a, hasError := b\<rparr>) = withFlags a b (caught e s)"
  by (simp add: caught_def)

lemma sendToken_flags:
  "sendTokenToWebView token (s\<lparr>isLoading := a, hasError := b\<rparr>)
     = withFlags a b (sendTokenToWebView token s)"
  by (simp add: token_queue_closed_form)

lemma save_flags:
  "handleSaveLocalData P key v io (s\<lparr>isLoading := a, hasError := b\<rparr>)
     = withFlags a b (handleSaveLocalData P key v io s)"
  by (simp add: handleSaveLocalData_def split: sum.splits)

lemma get_flags:
  "handleGetLocalData P key io (s\<lparr>isLoading := a, hasError := b\<rparr>)
     = withFlags a b (handleGetLocalData P key io s)"
  by (simp add: handleGetLocalData_def split: sum.splits)

lemma download_flags:
  "handleFileDownload P fileName payload (s\<lparr>isLoading := a, hasError := b\<rparr>)
     = withFlags a b (handleFileDownload P fileName payload s)"
  by (simp add: handleFileDownload_def split: sum.splits)

lemma flags_after_queue:
  "s\<lparr>pendingTokenRequests := q, isLoading := a, hasError := b\<rparr>
     = s\<lparr>isLoading := a, hasError := b, pendingTokenRequests := q\<rparr>"
  by simp

lemma flags_after_scanner:
  "s\<lparr>isScannerVisible := v, isLoading := a, hasError := b\<rparr>
     = s\<lparr>isLoading := a, hasError := b, isScannerVisible := v\<rparr>"
  by simp

lemma handleMessage_lifecycle_frame:
  "handleMessage P T ev io (s\<lparr>isLoading := a, hasError := b\<rparr>) =
     withFlags a b (handleMessage P T ev io s)"
  unfolding handleMessage_def
  by (simp add: caught_flags sendToken_flags save_flags get_flags download_flags
      flags_after_queue flags_after_scanner
      sum.case_distrib[of "withFlags a b"] option.case_distrib[of "withFlags a b"]
      parse_result.case_distrib[of "withFlags a b"] if_distrib[of "withFlags a b"]
      cong: sum.case_cong option.case_cong parse_result.case_cong if_cong)

lemma handleMessage_keeps_flags:
  "hasError (fst (handleMessage P T ev io s)) = hasError s
   \<and> isLoading (fst (handleMessage P T ev io s)) = isLoading s"
proof -
  have "s\<lparr>isLoading := isLoading s, hasError := hasError s\<rparr> = s" by simp
  with handleMessage_lifecycle_frame[where P=P and T=T and ev=ev and io=io and s=s
      and a="isLoading s" and b="hasError s"]
  have "handleMessage P T ev io s =
          withFlags (isLoading s) (hasError s) (handleMessage P T ev io s)" by simp
  then have "fst (handleMessage P T ev io s) =
          (fst (handleMessage P T ev io s))\<lparr>isLoading := isLoading s, hasError := hasError s\<rparr>"
    by (cases "handleMessage P T ev io s") (simp add: withFlags_def)
  then show ?thesis
    by (metis bridge.select_convs(1,2) bridge.surjective bridge.update_convs(1,2))
qed

lemma loadingRemoteSession_flags:
  "isLoading loadingRemoteSession \<and> \<not> hasError loadingRemoteSession \<and> webviewRef loadingRemoteSession"
  by (simp add: loadingRemoteSession_def mount_def governmentPayslip_def appConfig_def truthyStr_def
      fetchAuthToken_def token_queue_closed_form commit_def initialState_def renderWebView_def)

subsection \<open>C1: token requests are answered first in, first out, with one token\<close>

text \<open>
  Claim C1. Let any sequence of token-topic messages be handled while no token is held:
  each appends its continuation to the end of \<^verbatim>\<open>pendingTokenRequests\<close>. When a token is then
  supplied through \<^verbatim>\<open>sendTokenToWebView\<close>, every queued continuation is called with that
  same token, in the order in which the requests arrived, and the queue is left empty; the
  WebView, when mounted, receives one \<^verbatim>\<open>resolveToken\<close> script for the call itself and one
  per continuation. A token is supplied when the string is not empty: the function
  returns at once on an empty string, and none of its callers passes one. In particular
  the token a successful \<^verbatim>\<open>fetchAuthToken\<close> builds is stored and resolves every waiting
  request, in order.
\<close>

theorem token_requests_fifo_broadcast:
  assumes "TOKEN T \<noteq> []" and "authToken s0 = None"
    and "\<forall>r\<in>set requests. isTokenRequest T (fst r)"
  shows "pendingTokenRequests (handleAll P T requests s0) =
           pendingTokenRequests s0 @ map (\<lambda>r. SendTokenToWebView (arrival (fst r))) requests
       \<and> (token \<noteq> [] \<longrightarrow>
            continuationCalls (snd (sendTokenToWebView token (handleAll P T requests s0))) =
              map (\<lambda>c. (requestOf c, token)) (pendingTokenRequests s0)
                @ map (\<lambda>r. (arrival (fst r), token)) requests
          \<and> pendingTokenRequests (fst (sendTokenToWebView token (handleAll P T requests s0))) = []
          \<and> injected (snd (sendTokenToWebView token (handleAll P T requests s0))) =
              (if webviewRef s0
               then replicate (Suc (length (pendingTokenRequests s0) + length requests))
                      (GuardedCall ''resolveToken'' (Some (JStr token)))
               else []))
       \<and> continuationCalls (snd (fetchAuthToken (TokenAt now) (handleAll P T requests s0))) =
              map (\<lambda>c. (requestOf c, ''auth_token_'' @ decimal now)) (pendingTokenRequests s0)
                @ map (\<lambda>r. (arrival (fst r), ''auth_token_'' @ decimal now)) requests
       \<and> pendingTokenRequests (fst (fetchAuthToken (TokenAt now) (handleAll P T requests s0))) = []
       \<and> authToken (fst (fetchAuthToken (TokenAt now) (handleAll P T requests s0))) =
              Some (''auth_token_'' @ decimal now)"
proof -
  have q: "handleAll P T requests s0 =
       s0\<lparr>pendingTokenRequests :=
            pendingTokenRequests s0 @ map (\<lambda>r. SendTokenToWebView (arrival (fst r))) requests\<rparr>"
    using handleAll_queue[OF assms(1) assms(2) assms(3)] .
  show ?thesis
    by (simp add: q fetchAuthToken_def token_queue_closed_form continuationCalls_resolutions
        injected_resolutions injected_response comp_def)
qed

theorem token_requests_fifo_broadcast_witness:
  "continuationCalls (snd (sendTokenToWebView ''tok-1''
       (handleAll payslipViewer specTopics [tokenRequest 4, tokenRequest 7, tokenRequest 9]
          (initialState Map.empty)))) = [(4, ''tok-1''), (7, ''tok-1''), (9, ''tok-1'')]
   \<and> pendingTokenRequests (fst (sendTokenToWebView ''tok-1''
       (handleAll payslipViewer specTopics [tokenRequest 4, tokenRequest 7, tokenRequest 9]
          (initialState Map.empty)))) = []"
  using token_requests_fifo_broadcast[of specTopics "initialState Map.empty"
      "[tokenRequest 4, tokenRequest 7, tokenRequest 9]" payslipViewer "''tok-1''"]
  by (simp add: specTopics_def initialState_def isTokenRequest_def tokenRequest_def)

subsection \<open>C2: a failed credential fetch\<close>

text \<open>
  Claim C2 says that a failed fetch rejects every pending continuation and leaves the
  broker without a credential. In \<^verbatim>\<open>fetchAuthToken\<close> the token is stored before the only
  statement that can throw, the push of the token into the WebView; the \<^verbatim>\<open>catch\<close> logs
  the error and shows an alert, and a continuation has no rejecting form (its type is a
  function of the token). Counterexample to C2: one request waits and the first push
  throws; the token is held afterwards, the request is still in the queue, no
  continuation was called and nothing reached the WebView.
\<close>

theorem fetch_failure_counterexample:
  "authToken (fst (fetchAuthToken (InjectThrows 42 0 (Error ''bridge'')) waitingForToken))
     = Some ''auth_token_42''
   \<and> pendingTokenRequests
        (fst (fetchAuthToken (InjectThrows 42 0 (Error ''bridge'')) waitingForToken))
     = [SendTokenToWebView 1]
   \<and> snd (fetchAuthToken (InjectThrows 42 0 (Error ''bridge'')) waitingForToken)
     = [Console_error ''Token fetch error:'' (Some (Error ''bridge'')),
        Alert_alert (Some (JStr ''Authentication Error''))
          (Some (JStr ''Failed to authenticate user. Please try again.''))
          [Button (JStr ''OK'') None]]"
  by (simp add: fetchAuthToken_def waitingForToken_def initialState_def
      sendTokenToWebView_until.simps handleAlert_def orDefault_def decimal.simps)

text \<open>
  Claim C2, amended: the credential fetch fails when a push of the fetched token into the
  mounted WebView throws. Then the error is logged and the native alert "Authentication
  Error" is shown; the fetched token is already stored and stays held; no continuation is
  rejected: those taken off the queue before the throw were called with the token, in
  order (the last of them is the one whose push threw), and the others stay queued. When
  no push throws (no WebView is mounted, or the queue is drained first) the fetch succeeds.
\<close>

theorem fetch_failure_keeps_token:
  "(webviewRef s \<and> k \<le> length (pendingTokenRequests s) \<longrightarrow>
      fetchAuthToken (InjectThrows now k e) s =
        (s\<lparr>authToken := Some (''auth_token_'' @ decimal now),
           pendingTokenRequests := drop k (pendingTokenRequests s)\<rparr>,
         interrupted (''auth_token_'' @ decimal now) s (take k (pendingTokenRequests s))
           @ [Console_error ''Token fetch error:'' (Some e),
              Alert_alert (Some (JStr ''Authentication Error''))
                (Some (JStr ''Failed to authenticate user. Please try again.''))
                [Button (JStr ''OK'') None]])
      \<and> continuationCalls (snd (fetchAuthToken (InjectThrows now k e) s)) =
          map (\<lambda>c. (requestOf c, ''auth_token_'' @ decimal now)) (take k (pendingTokenRequests s))
      \<and> injected (snd (fetchAuthToken (InjectThrows now k e) s)) =
          replicate k (GuardedCall ''resolveToken'' (Some (JStr (''auth_token_'' @ decimal now)))))
   \<and> (\<not> (webviewRef s \<and> k \<le> length (pendingTokenRequests s)) \<longrightarrow>
      fetchAuthToken (InjectThrows now k e) s = fetchAuthToken (TokenAt now) s)"
proof -
  let ?tok = "''auth_token_'' @ decimal now"
  let ?report = "[Console_error ''Token fetch error:'' (Some e),
              Alert_alert (Some (JStr ''Authentication Error''))
                (Some (JStr ''Failed to authenticate user. Please try again.''))
                [Button (JStr ''OK'') None]]"
  have silent: "continuationCalls ?report = []" "injected ?report = []"
    by (simp_all add: continuationCalls_def injected_def)
  have fails: "webviewRef s \<and> k \<le> length (pendingTokenRequests s) \<longrightarrow>
      fetchAuthToken (InjectThrows now k e) s =
        (s\<lparr>authToken := Some ?tok, pendingTokenRequests := drop k (pendingTokenRequests s)\<rparr>,
         interrupted ?tok s (take k (pendingTokenRequests s)) @ ?report)"
    by (simp add: fetchAuthToken_def token_run_closed_form handleAlert_def orDefault_def)
  have completes: "\<not> (webviewRef s \<and> k \<le> length (pendingTokenRequests s)) \<longrightarrow>
      fetchAuthToken (InjectThrows now k e) s = fetchAuthToken (TokenAt now) s"
    by (simp add: fetchAuthToken_def token_run_closed_form token_queue_closed_form)
  show ?thesis
  proof (intro conjI impI)
    assume h: "webviewRef s \<and> k \<le> length (pendingTokenRequests s)"
    with fails show eq: "fetchAuthToken (InjectThrows now k e) s =
        (s\<lparr>authToken := Some ?tok, pendingTokenRequests := drop k (pendingTokenRequests s)\<rparr>,
         interrupted ?tok s (take k (pendingTokenRequests s)) @ ?report)" by blast
    show "continuationCalls (snd (fetchAuthToken (InjectThrows now k e) s)) =
          map (\<lambda>c. (requestOf c, ?tok)) (take k (pendingTokenRequests s))"
      by (simp only: eq snd_conv continuationCalls_append continuationCalls_interrupted silent
          append_Nil2)
    show "injected (snd (fetchAuthToken (InjectThrows now k e) s)) =
          replicate k (GuardedCall ''resolveToken'' (Some (JStr ?tok)))"
      using h
      by (simp only: eq snd_conv injected_append injected_interrupted silent append_Nil2)
         (simp add: min_def)
  next
    assume "\<not> (webviewRef s \<and> k \<le> length (pendingTokenRequests s))"
    with completes show "fetchAuthToken (InjectThrows now k e) s = fetchAuthToken (TokenAt now) s"
      by blast
  qed
qed

theorem fetch_failure_keeps_token_witness:
  "webviewRef twoWaiting \<and> (1::nat) \<le> length (pendingTokenRequests twoWaiting)
   \<and> authToken (fst (fetchAuthToken (InjectThrows 42 1 NonError) twoWaiting))
       = Some ''auth_token_42''
   \<and> pendingTokenRequests (fst (fetchAuthToken (InjectThrows 42 1 NonError) twoWaiting))
       = [SendTokenToWebView 2]
   \<and> continuationCalls (snd (fetchAuthToken (InjectThrows 42 1 NonError) twoWaiting))
       = [(1, ''auth_token_42'')]"
  using fetch_failure_keeps_token[of twoWaiting 1 42 NonError]
  by (simp add: twoWaiting_def initialState_def decimal.simps interrupted_def
      sendResponseToWeb_def continuationCalls_def)

subsection \<open>C3: messages the router cannot dispatch\<close>

lemma undispatchable_result:
  assumes "undispatchable T ev"
  shows "\<exists>e. isLog e \<and> handleMessage P T ev io s = (s, [e])"
proof (cases "nativeEvent_data ev")
  case SyntaxError
  then show ?thesis by (simp add: handleMessage_def caught_def)
next
  case (Value message)
  show ?thesis
  proof (cases "getProp (Some message) ''topic''")
    case (Inl e)
    with Value show ?thesis by (simp add: handleMessage_def caught_def)
  next
    case (Inr topic)
    with Value assms have "\<not> truthy topic \<or> topic \<notin> set (map (\<lambda>t. Some (JStr t)) (registeredTopics T))"
      by (simp add: undispatchable_def)
    with Value Inr show ?thesis
      by (auto simp: handleMessage_def registeredTopics_def)
  qed
qed

text \<open>
  Claim C3. For every inbound message that is not valid JSON, or that decodes to a value
  without a topic, or whose topic has no case in the router: the handler returns (every
  exception of its body ends in its \<^verbatim>\<open>catch\<close>, so \<open>handleMessage\<close> has no failing
  result), what it does is write to the console and nothing else, no script is injected
  into the content surface, and the state is unchanged, so that every later message is
  handled exactly as if the malformed one had never arrived.
\<close>

theorem malformed_message_is_dropped:
  assumes "undispatchable T ev"
  shows "fst (handleMessage P T ev io s) = s
       \<and> snd (handleMessage P T ev io s) \<noteq> []
       \<and> list_all isLog (snd (handleMessage P T ev io s))
       \<and> injected (snd (handleMessage P T ev io s)) = []
       \<and> (\<forall>ev' io'. handleMessage P T ev' io' (fst (handleMessage P T ev io s))
             = handleMessage P T ev' io' s)"
proof -
  obtain e where e: "isLog e" "handleMessage P T ev io s = (s, [e])"
    using undispatchable_result[OF assms] by blast
  then show ?thesis by (cases e) (simp_all add: injected_def)
qed

theorem malformed_message_is_dropped_witness:
  "fst (handleMessage payslipViewer specTopics notJson storageWorks waitingForToken) = waitingForToken
   \<and> injected (snd (handleMessage payslipViewer specTopics notJson storageWorks waitingForToken)) = []
   \<and> fst (handleMessage payslipViewer specTopics noTopic storageWorks waitingForToken) = waitingForToken
   \<and> injected (snd (handleMessage payslipViewer specTopics noTopic storageWorks waitingForToken)) = []
   \<and> fst (handleMessage payslipViewer specTopics unknownTopic storageWorks waitingForToken)
       = waitingForToken
   \<and> injected (snd (handleMessage payslipViewer specTopics unknownTopic storageWorks waitingForToken))
       = []"
  using malformed_message_is_dropped[of specTopics notJson payslipViewer storageWorks waitingForToken]
    malformed_message_is_dropped[of specTopics noTopic payslipViewer storageWorks waitingForToken]
    malformed_message_is_dropped[of specTopics unknownTopic payslipViewer storageWorks waitingForToken]
  by (simp add: undispatchable_def notJson_def noTopic_def unknownTopic_def specTopics_def
      registeredTopics_def)

subsection \<open>C4: responses to recognized requests\<close>

text \<open>
  Claim C4 says that a recognized request whose payload fields are missing is answered
  with a rejection, and that every request gets exactly one response. The router reads
  \<^verbatim>\<open>message.data.key\<close> without a check. Counterexample to C4: a save request without
  \<^verbatim>\<open>data\<close> raises a TypeError that the \<^verbatim>\<open>catch\<close> of the router logs; no response is
  sent.
\<close>

theorem missing_payload_counterexample:
  "handleMessage payslipViewer specTopics saveWithoutPayload storageWorks waitingForToken =
     (waitingForToken,
      [Console_error ''Error handling WebView message:'' (Some (Error ''TypeError''))])
   \<and> injected (snd (handleMessage payslipViewer specTopics saveWithoutPayload storageWorks
                      waitingForToken)) = []"
  by (simp add: handleMessage_def specTopics_def saveWithoutPayload_def dataField_def caught_def
      injected_def)

lemma getProp_defined: "d \<noteq> JNull \<Longrightarrow> \<exists>v. getProp (Some d) name = Inr v"
  by (cases d) simp_all

lemma dataField_present: "hasPayload message \<Longrightarrow> \<exists>v. dataField message name = Inr v"
  by (cases "getProp (Some message) ''data''")
     (auto simp: hasPayload_def dataField_def getProp_defined split: option.splits)

lemma dataField_absent:
  assumes "getProp (Some message) ''topic'' = Inr topic" "\<not> hasPayload message"
  shows "dataField message name = Inl (Error ''TypeError'')"
proof (cases message)
  case (JObj members)
  with assms(2) show ?thesis
    by (cases "map_of (rev members) ''data''") (auto simp: hasPayload_def dataField_def)
qed (use assms in \<open>auto simp: hasPayload_def dataField_def\<close>)

lemma save_sends_one:
  "webviewRef s \<Longrightarrow>
     \<exists>m d. injected (snd (handleSaveLocalData P key v io s)) = [GuardedCall m d]
          \<and> m \<in> {''resolveSaveLocalData'', ''rejectSaveLocalData''}"
  by (auto simp: handleSaveLocalData_def injected_def sendResponseToWeb_def split: sum.splits)

lemma get_sends_one:
  "webviewRef s \<Longrightarrow>
     \<exists>m d. injected (snd (handleGetLocalData P key io s)) = [GuardedCall m d]
          \<and> m \<in> {''resolveGetLocalData'', ''rejectGetLocalData''}"
  by (auto simp: handleGetLocalData_def injected_def sendResponseToWeb_def split: sum.splits)

lemma download_sends_one:
  "webviewRef s \<Longrightarrow>
     \<exists>m d. injected (snd (handleFileDownload P fileName payload s)) = [GuardedCall m d]
          \<and> m \<in> {''resolveDownload'', ''rejectDownload''}"
  by (auto simp: handleFileDownload_def injected_def sendResponseToWeb_def handleAlert_def
      split: sum.splits)

lemma topics_apart:
  assumes "wellFormedTopics T"
  shows "TOKEN T \<noteq> [] \<and> QR_REQUEST T \<noteq> [] \<and> SAVE_LOCAL_DATA T \<noteq> []
       \<and> GET_LOCAL_DATA T \<noteq> [] \<and> ALERT T \<noteq> [] \<and> CONFIRM_ALERT T \<noteq> []
       \<and> QR_REQUEST T \<noteq> TOKEN T
       \<and> SAVE_LOCAL_DATA T \<noteq> TOKEN T \<and> SAVE_LOCAL_DATA T \<noteq> QR_REQUEST T
       \<and> GET_LOCAL_DATA T \<noteq> TOKEN T \<and> GET_LOCAL_DATA T \<noteq> QR_REQUEST T
       \<and> GET_LOCAL_DATA T \<noteq> SAVE_LOCAL_DATA T
       \<and> CONFIRM_ALERT T \<noteq> TOKEN T \<and> CONFIRM_ALERT T \<noteq> QR_REQUEST T
       \<and> CONFIRM_ALERT T \<noteq> SAVE_LOCAL_DATA T \<and> CONFIRM_ALERT T \<noteq> GET_LOCAL_DATA T
       \<and> CONFIRM_ALERT T \<noteq> ALERT T
       \<and> ''download_file'' \<noteq> TOKEN T \<and> ''download_file'' \<noteq> QR_REQUEST T
       \<and> ''download_file'' \<noteq> SAVE_LOCAL_DATA T \<and> ''download_file'' \<noteq> GET_LOCAL_DATA T
       \<and> ''download_file'' \<noteq> ALERT T \<and> ''download_file'' \<noteq> CONFIRM_ALERT T
       \<and> ''upload_file'' \<noteq> TOKEN T \<and> ''upload_file'' \<noteq> QR_REQUEST T
       \<and> ''upload_file'' \<noteq> SAVE_LOCAL_DATA T \<and> ''upload_file'' \<noteq> GET_LOCAL_DATA T
       \<and> ''upload_file'' \<noteq> ALERT T \<and> ''upload_file'' \<noteq> CONFIRM_ALERT T"
  using assms unfolding wellFormedTopics_def registeredTopics_def by auto

lemma route_save:
  assumes "wellFormedTopics T" "nativeEvent_data ev = Value message"
    "getProp (Some message) ''topic'' = Inr (Some (JStr (SAVE_LOCAL_DATA T)))"
  shows "handleMessage P T ev io s =
     (case dataField message ''key'' of
        Inl e \<Rightarrow> caught e s
      | Inr key \<Rightarrow>
          (case dataField message ''value'' of
             Inl e \<Rightarrow> caught e s
           | Inr v \<Rightarrow> handleSaveLocalData P key v io s))"
  using topics_apart[OF assms(1)] assms(2,3) by (simp add: handleMessage_def)

lemma route_get:
  assumes "wellFormedTopics T" "nativeEvent_data ev = Value message"
    "getProp (Some message) ''topic'' = Inr (Some (JStr (GET_LOCAL_DATA T)))"
  shows "handleMessage P T ev io s =
     (case dataField message ''key'' of
        Inl e \<Rightarrow> caught e s
      | Inr key \<Rightarrow> handleGetLocalData P key io s)"
  using topics_apart[OF assms(1)] assms(2,3) by (simp add: handleMessage_def)

lemma route_download:
  assumes "wellFormedTopics T" "nativeEvent_data ev = Value message"
    "getProp (Some message) ''topic'' = Inr (Some (JStr ''download_file''))"
  shows "handleMessage P T ev io s =
     (case dataField message ''fileName'' of
        Inl e \<Rightarrow> caught e s
      | Inr fileName \<Rightarrow>
          (case dataField message ''data'' of
             Inl e \<Rightarrow> caught e s
           | Inr payload \<Rightarrow> handleFileDownload P fileName payload s))"
  using topics_apart[OF assms(1)] assms(2,3) by (simp add: handleMessage_def)

lemma route_upload:
  assumes "wellFormedTopics T" "nativeEvent_data ev = Value message"
    "getProp (Some message) ''topic'' = Inr (Some (JStr ''upload_file''))"
  shows "handleMessage P T ev io s =
     (s, sendResponseToWeb ''resolveUpload'' (Some (JObj [(''success'', JBool True)])) s)"
  using topics_apart[OF assms(1)] assms(2,3) by (simp add: handleMessage_def)

lemma route_confirm:
  assumes "wellFormedTopics T" "nativeEvent_data ev = Value message"
    "getProp (Some message) ''topic'' = Inr (Some (JStr (CONFIRM_ALERT T)))"
  shows "handleMessage P T ev io s =
     (case dataField message ''title'' of
        Inl e \<Rightarrow> caught e s
      | Inr title \<Rightarrow>
          (case dataField message ''message'' of
             Inl e \<Rightarrow> caught e s
           | Inr msg \<Rightarrow>
               (case dataField message ''cancelButtonText'' of
                  Inl e \<Rightarrow> caught e s
                | Inr cancelText \<Rightarrow>
                    (case dataField message ''confirmButtonText'' of
                       Inl e \<Rightarrow> caught e s
                     | Inr confirmText \<Rightarrow>
                         (s, handleConfirmAlert title msg cancelText confirmText)))))"
  using topics_apart[OF assms(1)] assms(2,3) by (simp add: handleMessage_def)

lemma route_qr:
  assumes "wellFormedTopics T" "nativeEvent_data ev = Value message"
    "getProp (Some message) ''topic'' = Inr (Some (JStr (QR_REQUEST T)))"
  shows "handleMessage P T ev io s = (s\<lparr>isScannerVisible := True\<rparr>, [])"
  using topics_apart[OF assms(1)] assms(2,3) by (simp add: handleMessage_def)

text \<open>
  Claim C4, amended. Let a message carry a recognized request topic, the topic table be
  well formed and the WebView be mounted. No io reaches the host shell, and no payload
  field is validated. When the payload object is absent, the topics that read it
  (save, get, confirm, download) log a TypeError, send no response and leave the state
  unchanged. When it is present, save, get and download send exactly one response, a
  resolve or a reject of their own method, with missing fields passed on as
  \<^verbatim>\<open>undefined\<close>; upload always sends exactly one \<^verbatim>\<open>resolveUpload\<close>. A confirmation
  request sends nothing at dispatch: it shows one dialog with two buttons, and pressing a
  button sends exactly one \<^verbatim>\<open>resolveConfirmAlert\<close>, "cancel" or "confirm". A scan request
  sends nothing at dispatch: it opens the scanner, and a scan result sends exactly one
  \<^verbatim>\<open>resolveQrCode\<close> and closes it.
\<close>

theorem recognized_request_responses:
  assumes wf: "wellFormedTopics T" and ref: "webviewRef s"
    and ev: "nativeEvent_data ev = Value message"
    and topic: "getProp (Some message) ''topic'' = Inr (Some (JStr t))"
  shows
    "(t \<in> {SAVE_LOCAL_DATA T, GET_LOCAL_DATA T, CONFIRM_ALERT T, ''download_file''}
        \<and> \<not> hasPayload message \<longrightarrow>
        handleMessage P T ev io s =
          (s, [Console_error ''Error handling WebView message:'' (Some (Error ''TypeError''))]))
   \<and> (t = SAVE_LOCAL_DATA T \<and> hasPayload message \<longrightarrow>
        (\<exists>m d. injected (snd (handleMessage P T ev io s)) = [GuardedCall m d]
              \<and> m \<in> {''resolveSaveLocalData'', ''rejectSaveLocalData''}))
   \<and> (t = GET_LOCAL_DATA T \<and> hasPayload message \<longrightarrow>
        (\<exists>m d. injected (snd (handleMessage P T ev io s)) = [GuardedCall m d]
              \<and> m \<in> {''resolveGetLocalData'', ''rejectGetLocalData''}))
   \<and> (t = ''download_file'' \<and> hasPayload message \<longrightarrow>
        (\<exists>m d. injected (snd (handleMessage P T ev io s)) = [GuardedCall m d]
              \<and> m \<in> {''resolveDownload'', ''rejectDownload''}))
   \<and> (t = ''upload_file'' \<longrightarrow>
        handleMessage P T ev io s =
          (s, [InjectJavaScript
                 (GuardedCall ''resolveUpload'' (Some (JObj [(''success'', JBool True)])))]))
   \<and> (t = CONFIRM_ALERT T \<and> hasPayload message \<longrightarrow>
        (\<exists>title msg cancelText confirmText.
           handleMessage P T ev io s =
             (s, [Alert_alert title msg
                    [Button cancelText
                       (Some (SendResponse ''resolveConfirmAlert'' (Some (JStr ''cancel'')))),
                     Button confirmText
                       (Some (SendResponse ''resolveConfirmAlert'' (Some (JStr ''confirm''))))]])))
   \<and> (t = QR_REQUEST T \<longrightarrow>
        handleMessage P T ev io s = (s\<lparr>isScannerVisible := True\<rparr>, []))
   \<and> (\<forall>m d. handler P T (Press (SendResponse m d)) s =
               (s, [InjectJavaScript (GuardedCall m d)]))
   \<and> (\<forall>qrData. handleQrScanResult qrData s =
          (s\<lparr>isScannerVisible := False\<rparr>,
           [InjectJavaScript (GuardedCall ''resolveQrCode'' (Some (JStr qrData)))]))"
proof -
  note absent = dataField_absent[OF topic]
  have a: "t \<in> {SAVE_LOCAL_DATA T, GET_LOCAL_DATA T, CONFIRM_ALERT T, ''download_file''}
        \<and> \<not> hasPayload message \<longrightarrow>
        handleMessage P T ev io s =
          (s, [Console_error ''Error handling WebView message:'' (Some (Error ''TypeError''))])"
  proof (intro impI, elim conjE)
    assume t: "t \<in> {SAVE_LOCAL_DATA T, GET_LOCAL_DATA T, CONFIRM_ALERT T, ''download_file''}"
      and np: "\<not> hasPayload message"
    from t consider "t = SAVE_LOCAL_DATA T" | "t = GET_LOCAL_DATA T" | "t = CONFIRM_ALERT T"
      | "t = ''download_file''" by auto
    then show "handleMessage P T ev io s =
          (s, [Console_error ''Error handling WebView message:'' (Some (Error ''TypeError''))])"
    proof cases
      case 1
      with route_save[OF wf ev, of P io s] topic absent[OF np] show ?thesis
        by (simp add: caught_def)
    next
      case 2
      with route_get[OF wf ev, of P io s] topic absent[OF np] show ?thesis
        by (simp add: caught_def)
    next
      case 3
      with route_confirm[OF wf ev, of P io s] topic absent[OF np] show ?thesis
        by (simp add: caught_def)
    next
      case 4
      with route_download[OF wf ev, of P io s] topic absent[OF np] show ?thesis
        by (simp add: caught_def)
    qed
  qed
  have b: "t = SAVE_LOCAL_DATA T \<and> hasPayload message \<longrightarrow>
        (\<exists>m d. injected (snd (handleMessage P T ev io s)) = [GuardedCall m d]
              \<and> m \<in> {''resolveSaveLocalData'', ''rejectSaveLocalData''})"
  proof (intro impI, elim conjE)
    assume t: "t = SAVE_LOCAL_DATA T" and p: "hasPayload message"
    obtain key v where "dataField message ''key'' = Inr key" "dataField message ''value'' = Inr v"
      using dataField_present[OF p] by blast
    with route_save[OF wf ev, of P io s] topic t
    have "handleMessage P T ev io s = handleSaveLocalData P key v io s" by simp
    with save_sends_one[OF ref, of P key v io]
    show "\<exists>m d. injected (snd (handleMessage P T ev io s)) = [GuardedCall m d]
              \<and> m \<in> {''resolveSaveLocalData'', ''rejectSaveLocalData''}" by simp
  qed
  have c: "t = GET_LOCAL_DATA T \<and> hasPayload message \<longrightarrow>
        (\<exists>m d. injected (snd (handleMessage P T ev io s)) = [GuardedCall m d]
              \<and> m \<in> {''resolveGetLocalData'', ''rejectGetLocalData''})"
  proof (intro impI, elim conjE)
    assume t: "t = GET_LOCAL_DATA T" and p: "hasPayload message"
    obtain key where "dataField message ''key'' = Inr key"
      using dataField_present[OF p] by blast
    with route_get[OF wf ev, of P io s] topic t
    have "handleMessage P T ev io s = handleGetLocalData P key io s" by simp
    with get_sends_one[OF ref, of P key io]
    show "\<exists>m d. injected (snd (handleMessage P T ev io s)) = [GuardedCall m d]
              \<and> m \<in> {''resolveGetLocalData'', ''rejectGetLocalData''}" by simp
  qed
  have d: "t = ''download_file'' \<and> hasPayload message \<longrightarrow>
        (\<exists>m d. injected (snd (handleMessage P T ev io s)) = [GuardedCall m d]
              \<and> m \<in> {''resolveDownload'', ''rejectDownload''})"
  proof (intro impI, elim conjE)
    assume t: "t = ''download_file''" and p: "hasPayload message"
    obtain fileName payload where
      "dataField message ''fileName'' = Inr fileName" "dataField message ''data'' = Inr payload"
      using dataField_present[OF p] by blast
    with route_download[OF wf ev, of P io s] topic t
    have "handleMessage P T ev io s = handleFileDownload P fileName payload s" by simp
    with download_sends_one[OF ref, of P fileName payload]
    show "\<exists>m d. injected (snd (handleMessage P T ev io s)) = [GuardedCall m d]
              \<and> m \<in> {''resolveDownload'', ''rejectDownload''}" by simp
  qed
  have e: "t = ''upload_file'' \<longrightarrow>
        handleMessage P T ev io s =
          (s, [InjectJavaScript
                 (GuardedCall ''resolveUpload'' (Some (JObj [(''success'', JBool True)])))])"
    using route_upload[OF wf ev, of P io s] topic ref by (simp add: sendResponseToWeb_def)
  have f: "t = CONFIRM_ALERT T \<and> hasPayload message \<longrightarrow>
        (\<exists>title msg cancelText confirmText.
           handleMessage P T ev io s =
             (s, [Alert_alert title msg
                    [Button cancelText
                       (Some (SendResponse ''resolveConfirmAlert'' (Some (JStr ''cancel'')))),
                     Button confirmText
                       (Some (SendResponse ''resolveConfirmAlert'' (Some (JStr ''confirm''))))]]))"
  proof (intro impI, elim conjE)
    assume t: "t = CONFIRM_ALERT T" and p: "hasPayload message"
    obtain title msg c k where
      "dataField message ''title'' = Inr title" "dataField message ''message'' = Inr msg"
      "dataField message ''cancelButtonText'' = Inr c"
      "dataField message ''confirmButtonText'' = Inr k"
      using dataField_present[OF p, of "''title''"] dataField_present[OF p, of "''message''"]
        dataField_present[OF p, of "''cancelButtonText''"]
        dataField_present[OF p, of "''confirmButtonText''"] by auto
    with route_confirm[OF wf ev, of P io s] topic t
    have "handleMessage P T ev io s = (s, handleConfirmAlert title msg c k)" by simp
    then show "\<exists>title msg cancelText confirmText.
           handleMessage P T ev io s =
             (s, [Alert_alert title msg
                    [Button cancelText
                       (Some (SendResponse ''resolveConfirmAlert'' (Some (JStr ''cancel'')))),
                     Button confirmText
                       (Some (SendResponse ''resolveConfirmAlert'' (Some (JStr ''confirm''))))]])"
      by (simp add: handleConfirmAlert_def)
  qed
  have g: "t = QR_REQUEST T \<longrightarrow>
        handleMessage P T ev io s = (s\<lparr>isScannerVisible := True\<rparr>, [])"
    using route_qr[OF wf ev, of P io s] topic by simp
  have h: "\<forall>m d. handler P T (Press (SendResponse m d)) s =
               (s, [InjectJavaScript (GuardedCall m d)])"
    using ref by (simp add: sendResponseToWeb_def)
  have i: "\<forall>qrData. handleQrScanResult qrData s =
          (s\<lparr>isScannerVisible := False\<rparr>,
           [InjectJavaScript (GuardedCall ''resolveQrCode'' (Some (JStr qrData)))])"
    using ref by (simp add: handleQrScanResult_def sendResponseToWeb_def)
  from a b c d e f g h i show ?thesis by (intro conjI)
qed

theorem recognized_request_responses_witness:
  "wellFormedTopics specTopics \<and> hasPayload (JObj [(''topic'', JStr ''SAVE_LOCAL_DATA''),
                      (''data'', JObj [(''key'', JStr ''user_preference''),
                                       (''value'', JStr ''dark_mode'')])])
   \<and> injected (snd (handleMessage payslipViewer specTopics saveRequest storageWorks waitingForToken))
       = [GuardedCall ''resolveSaveLocalData'' None]"
  using recognized_request_responses[of specTopics waitingForToken saveRequest
      "JObj [(''topic'', JStr ''SAVE_LOCAL_DATA''),
             (''data'', JObj [(''key'', JStr ''user_preference''),
                              (''value'', JStr ''dark_mode'')])]"
      "''SAVE_LOCAL_DATA''" payslipViewer storageWorks]
  by (simp add: wellFormedTopics_def registeredTopics_def specTopics_def hasPayload_def
      saveRequest_def waitingForToken_def initialState_def handleMessage_def dataField_def
      handleSaveLocalData_def AsyncStorage_setItem_def sendResponseToWeb_def injected_def
      storageKey_def template_def storageWorks_def)

subsection \<open>C5: the file-access flag\<close>

lemma download_without_file_access:
  "\<not> allowsFileAccess (appConfig P) \<Longrightarrow>
     handleFileDownload P fileName payload s =
       (s, sendResponseToWeb ''rejectDownload''
             (Some (JStr ''File access not permitted for this app'')) s)"
  by (simp add: handleFileDownload_def errMessage_def)

text \<open>
  Claim C5 says that both file requests are rejected with a permission-denied reason when
  the application has no file access. \<^verbatim>\<open>download_file\<close> is
  (\<open>download_without_file_access\<close>: the only effect is the rejection). The case
  \<^verbatim>\<open>upload_file\<close> of the router does not read the flag. The code at the failing input:
  the payslip viewer has no file access, and its upload request is answered with
  \<^verbatim>\<open>resolveUpload({success: true})\<close>.
\<close>

theorem upload_ignores_file_access_flag:
  "\<not> allowsFileAccess (appConfig payslipViewer)
   \<and> handleMessage payslipViewer specTopics uploadRequest storageWorks waitingForToken =
       (waitingForToken,
        [InjectJavaScript (GuardedCall ''resolveUpload'' (Some (JObj [(''success'', JBool True)])))])"
  by (simp add: appConfig_def payslipViewer_def handleMessage_def specTopics_def uploadRequest_def
      sendResponseToWeb_def waitingForToken_def initialState_def)

subsection \<open>C6: retrying after a load failure\<close>

lemma fetchAuthToken_keeps_flags:
  "hasError (fst (fetchAuthToken r s)) = hasError s
   \<and> isLoading (fst (fetchAuthToken r s)) = isLoading s"
  by (cases r) (simp_all add: fetchAuthToken_def token_queue_closed_form token_run_closed_form)

lemma commit_flags [simp]:
  "hasError (commit P s) = hasError s" "isLoading (commit P s) = isLoading s"
  "webviewRef (commit P s) = (\<not> hasError s \<and> mountsWebView (renderWebView P s))"
  by (simp_all add: commit_def)

lemma invariant_after_commit:
  "\<not> (hasError s \<and> isLoading s) \<Longrightarrow> flagsInvariant (commit P s)"
  by (auto simp: flagsInvariant_def)

lemma handler_keeps_consistency:
  assumes "flagsInvariant s" "enabled P e s"
  shows "\<not> (hasError (fst (handler P T e s)) \<and> isLoading (fst (handler P T e s)))"
proof (cases e)
  case (Message ev io)
  with assms handleMessage_keeps_flags[of P T ev io s] show ?thesis
    by (simp add: flagsInvariant_def)
next
  case (Press a)
  with assms show ?thesis by (cases a) (simp add: flagsInvariant_def)
qed (use assms in \<open>auto simp: flagsInvariant_def handleWebViewError_def reloadWebView_def
      handleQrScanResult_def\<close>)

lemma step_keeps_invariant:
  assumes "flagsInvariant s"
  shows "flagsInvariant (fst (step P T e s))"
proof (cases "enabled P e s")
  case True
  obtain s' out where h: "handler P T e s = (s', out)" by (cases "handler P T e s")
  with handler_keeps_consistency[OF assms True, of T]
  have "\<not> (hasError s' \<and> isLoading s')" by simp
  with True h show ?thesis
    by (simp add: step_def invariant_after_commit)
next
  case False
  with assms show ?thesis by (simp add: step_def)
qed

lemma run_keeps_invariant:
  "flagsInvariant s \<Longrightarrow> flagsInvariant (run P T es s)"
  by (induction es arbitrary: s) (simp_all add: step_keeps_invariant)

lemma mount_invariant: "flagsInvariant (fst (mount P fetch store))"
proof -
  have "hasError (fst (fetchAuthToken fetch (commit P (initialState store)))) = False"
    using fetchAuthToken_keeps_flags[of fetch "commit P (initialState store)"]
    by (simp add: initialState_def)
  then show ?thesis
    by (auto simp: mount_def initialState_def intro!: invariant_after_commit
        split: prod.splits option.splits)
qed

text \<open>
  Claim C6. \<^verbatim>\<open>reloadWebView\<close> clears the error flag and sets the loading flag in one
  update, so the retry action, which the retry screen offers exactly in the Errored state,
  leads to Loading and never straight to Ready. In every state a session reaches from
  its start, by any sequence of events, the error flag and the loading flag are never set
  together: the only other way into Loading is the WebView's load-start event, and a
  WebView is mounted only while the error flag is clear.
\<close>

theorem retry_reenters_loading:
  "hasError (fst (reloadWebView s)) = False \<and> isLoading (fst (reloadWebView s)) = True
   \<and> lifecycleOf (fst (reloadWebView s)) = Loading
   \<and> (lifecycleOf s = Errored \<longrightarrow>
        enabled P TryAgain s \<and> lifecycleOf (fst (step P T TryAgain s)) = Loading)
   \<and> \<not> (hasError (run P T es (fst (mount P fetch store)))
          \<and> isLoading (run P T es (fst (mount P fetch store))))"
proof -
  have "flagsInvariant (run P T es (fst (mount P fetch store)))"
    by (rule run_keeps_invariant) (rule mount_invariant)
  then show ?thesis
    by (simp add: flagsInvariant_def reloadWebView_def lifecycleOf_def step_def
        split: if_splits)
qed

theorem retry_reenters_loading_witness:
  "lifecycleOf (run governmentPayslip specTopics [LoadError] loadingRemoteSession) = Errored
   \<and> lifecycleOf (fst (step governmentPayslip specTopics TryAgain
        (run governmentPayslip specTopics [LoadError] loadingRemoteSession))) = Loading"
  using retry_reenters_loading[where s="run governmentPayslip specTopics [LoadError] loadingRemoteSession"
      and P=governmentPayslip and T=specTopics and es="[]" and fetch="TokenAt 42" and store=Map.empty]
    loadingRemoteSession_flags
  by (simp add: lifecycleOf_def step_def handleWebViewError_def)

subsection \<open>C7: dispatch and the lifecycle state\<close>

text \<open>
  Claim C7 says that a message arriving while the state is Loading is buffered and handled
  only once the state is Ready. The component has no buffer, and \<^verbatim>\<open>handleMessage\<close> reads
  neither flag. Counterexample to C7: the remote payslip session is Loading right after its
  start, its WebView is mounted, and an upload request delivered then is answered at once.
\<close>

theorem message_while_loading_counterexample:
  "lifecycleOf loadingRemoteSession = Loading
   \<and> snd (step governmentPayslip specTopics (Message uploadRequest storageWorks) loadingRemoteSession)
       = [InjectJavaScript (GuardedCall ''resolveUpload'' (Some (JObj [(''success'', JBool True)])))]"
  using loadingRemoteSession_flags
  by (simp add: lifecycleOf_def step_def handleMessage_def specTopics_def uploadRequest_def
      sendResponseToWeb_def)

text \<open>
  Claim C7, amended. Dispatch does not consult the lifecycle state and nothing is buffered
  or replayed: a message the mounted WebView delivers is handled at once, and the handler
  does the same, to the state and to the outside, whatever \<open>isLoading\<close> and
  \<open>hasError\<close> are, leaving both as they were. While no WebView is mounted (the retry
  screen stands in its place while \<open>hasError\<close>) no message is delivered at all.
\<close>

theorem dispatch_ignores_lifecycle:
  "handleMessage P T ev io (s\<lparr>isLoading := a, hasError := b\<rparr>) =
     (case handleMessage P T ev io s of (s', out) \<Rightarrow> (s'\<lparr>isLoading := a, hasError := b\<rparr>, out))
   \<and> (webviewRef s \<longrightarrow>
        step P T (Message ev io) s =
          (commit P (fst (handleMessage P T ev io s)), snd (handleMessage P T ev io s)))
   \<and> (\<not> webviewRef s \<longrightarrow> step P T (Message ev io) s = (s, []))"
  using handleMessage_lifecycle_frame[where P=P and T=T and ev=ev and io=io and s=s
      and a=a and b=b]
  by (simp add: step_def withFlags_def split: prod.splits)

theorem dispatch_ignores_lifecycle_witness:
  "webviewRef waitingForToken
   \<and> handleMessage payslipViewer specTopics uploadRequest storageWorks
        (waitingForToken\<lparr>isLoading := False, hasError := False\<rparr>)
     = (waitingForToken\<lparr>isLoading := False, hasError := False\<rparr>,
        [InjectJavaScript (GuardedCall ''resolveUpload'' (Some (JObj [(''success'', JBool True)])))])
   \<and> snd (handleMessage payslipViewer specTopics uploadRequest storageWorks
            (waitingForToken\<lparr>isLoading := False, hasError := False\<rparr>))
     = snd (handleMessage payslipViewer specTopics uploadRequest storageWorks waitingForToken)
   \<and> snd (step payslipViewer specTopics (Message uploadRequest storageWorks) waitingForToken)
     = [InjectJavaScript (GuardedCall ''resolveUpload'' (Some (JObj [(''success'', JBool True)])))]"
  using dispatch_ignores_lifecycle[where P=payslipViewer and T=specTopics and ev=uploadRequest
      and io=storageWorks and s=waitingForToken and a=False and b=False]
  by (simp add: waitingForToken_def initialState_def handleMessage_def specTopics_def
      uploadRequest_def sendResponseToWeb_def split: prod.splits)

subsection \<open>C8: the storage namespace\<close>

lemma same_key_isolated:
  "appId A \<noteq> appId B \<Longrightarrow> storageKey A k = Inr a \<Longrightarrow> storageKey B k = Inr b \<Longrightarrow> a \<noteq> b"
  by (auto simp: storageKey_def split: sum.splits)

lemma underscore_split:
  "CHR ''_'' \<notin> set a \<Longrightarrow> CHR ''_'' \<notin> set b \<Longrightarrow> a @ CHR ''_'' # x = b @ CHR ''_'' # y \<Longrightarrow> a = b"
proof (induction a arbitrary: b)
  case Nil
  then show ?case by (cases b) auto
next
  case (Cons c a)
  then show ?case by (cases b) auto
qed

lemma underscore_free_ids_isolated:
  assumes "CHR ''_'' \<notin> set (appId A)" "CHR ''_'' \<notin> set (appId B)" "appId A \<noteq> appId B"
    and "storageKey A k = Inr a" "storageKey B k' = Inr b"
  shows "a \<noteq> b"
  using assms underscore_split[of "appId A" "appId B"]
  by (auto simp: storageKey_def split: sum.splits)

text \<open>
  Claim C8 says that nothing saved under one application identity can be read under
  another, whatever the keys. The storage key is the text \<^verbatim>\<open>microapp_\<close>, the identity,
  an underscore and the logical key, so the same logical key never collides across two
  identities (\<open>same_key_isolated\<close>), and identities without an underscore are isolated
  for all keys (\<open>underscore_free_ids_isolated\<close>). But an identity that continues another
  one after an underscore shares storage keys with it. The code at the failing input:
  the application \<^verbatim>\<open>government\<close> saves \<^verbatim>\<open>payslip_user_preference\<close>, and the application
  \<^verbatim>\<open>government_payslip\<close> reads that value back under the key \<^verbatim>\<open>user_preference\<close>.
\<close>

theorem storage_namespace_collision:
  "snd (handleGetLocalData governmentPayslip (Some (JStr ''user_preference'')) storageWorks
          (fst (handleSaveLocalData government (Some (JStr ''payslip_user_preference''))
                  (Some (JStr ''dark_mode'')) storageWorks waitingForToken)))
     = [InjectJavaScript
          (GuardedCall ''resolveGetLocalData'' (Some (JObj [(''value'', JStr ''dark_mode'')])))]"
  by (simp add: handleGetLocalData_def handleSaveLocalData_def AsyncStorage_getItem_def
      AsyncStorage_setItem_def storageKey_def template_def government_def governmentPayslip_def
      waitingForToken_def initialState_def sendResponseToWeb_def storageWorks_def)

subsection \<open>C9: reading local data twice\<close>

text \<open>
  Claim C9. Reading a key leaves the state, the store included, as it was, so a second
  read answers as a first one would; and two reads in which the native module does not
  throw send the same response whatever else their environments are. That response is
  determined by the store: when the key converts to a text, \<^verbatim>\<open>resolveGetLocalData\<close> with
  the string stored under the namespaced key, or with \<^verbatim>\<open>null\<close> when none or the empty
  string is stored; when the conversion of the key throws, \<^verbatim>\<open>rejectGetLocalData\<close> with
  the message of what it throws. A read after a successful save of a non-empty string
  under the same identity and key answers with that string.
\<close>

theorem get_local_data_idempotent:
  "fst (handleGetLocalData P key io s) = s
   \<and> snd (handleGetLocalData P key io' (fst (handleGetLocalData P key io s)))
       = snd (handleGetLocalData P key io' s)
   \<and> (nativeError io = None \<and> nativeError io' = None \<longrightarrow>
        snd (handleGetLocalData P key io' (fst (handleGetLocalData P key io s)))
          = snd (handleGetLocalData P key io s))
   \<and> (\<forall>k. storageKey P key = Inr k \<and> nativeError io = None \<longrightarrow>
        snd (handleGetLocalData P key io s) =
          sendResponseToWeb ''resolveGetLocalData''
            (Some (JObj [(''value'',
               case asyncStorage s k of
                 None \<Rightarrow> JNull
               | Some text \<Rightarrow> if text = [] then JNull else JStr text)])) s)
   \<and> (\<forall>e. storageKey P key = Inl e \<longrightarrow>
        snd (handleGetLocalData P key io s) =
          sendResponseToWeb ''rejectGetLocalData''
            (Some (JStr (errMessage e ''Storage error''))) s)
   \<and> (\<forall>k text. storageKey P key = Inr k \<and> nativeError io = None \<and> text \<noteq> [] \<longrightarrow>
        snd (handleGetLocalData P key io
               (fst (handleSaveLocalData P key (Some (JStr text)) io s))) =
          sendResponseToWeb ''resolveGetLocalData'' (Some (JObj [(''value'', JStr text)])) s)"
proof -
  have unchanged: "fst (handleGetLocalData P key io s) = s"
    by (simp add: handleGetLocalData_def split: sum.splits)
  have agree: "nativeError io = None \<and> nativeError io' = None \<longrightarrow>
        snd (handleGetLocalData P key io' s) = snd (handleGetLocalData P key io s)"
    by (simp add: handleGetLocalData_def AsyncStorage_getItem_def split: sum.splits)
  have found: "\<forall>k. storageKey P key = Inr k \<and> nativeError io = None \<longrightarrow>
        snd (handleGetLocalData P key io s) =
          sendResponseToWeb ''resolveGetLocalData''
            (Some (JObj [(''value'',
               case asyncStorage s k of
                 None \<Rightarrow> JNull
               | Some text \<Rightarrow> if text = [] then JNull else JStr text)])) s"
    by (simp add: handleGetLocalData_def AsyncStorage_getItem_def split: option.splits)
  have rejected: "\<forall>e. storageKey P key = Inl e \<longrightarrow>
        snd (handleGetLocalData P key io s) =
          sendResponseToWeb ''rejectGetLocalData''
            (Some (JStr (errMessage e ''Storage error''))) s"
    by (simp add: handleGetLocalData_def)
  have saved: "\<forall>k text. storageKey P key = Inr k \<and> nativeError io = None \<and> text \<noteq> [] \<longrightarrow>
        snd (handleGetLocalData P key io
               (fst (handleSaveLocalData P key (Some (JStr text)) io s))) =
          sendResponseToWeb ''resolveGetLocalData'' (Some (JObj [(''value'', JStr text)])) s"
    by (simp add: handleGetLocalData_def handleSaveLocalData_def AsyncStorage_getItem_def
        AsyncStorage_setItem_def sendResponseToWeb_def)
  from unchanged agree found rejected saved show ?thesis by simp
qed

theorem get_local_data_idempotent_witness:
  "snd (handleGetLocalData payslipViewer (Some (JStr ''user_preference'')) storageWorks
         (fst (handleGetLocalData payslipViewer (Some (JStr ''user_preference'')) storageWorks
                 waitingForToken)))
     = [InjectJavaScript (GuardedCall ''resolveGetLocalData'' (Some (JObj [(''value'', JNull)])))]
   \<and> snd (handleGetLocalData payslipViewer (Some (JObj [(''toString'', JBool True)])) storageWorks
         (fst (handleGetLocalData payslipViewer (Some (JObj [(''toString'', JBool True)]))
                 storageWorks waitingForToken)))
     = [InjectJavaScript (GuardedCall ''rejectGetLocalData'' (Some (JStr ''TypeError'')))]
   \<and> snd (handleGetLocalData payslipViewer (Some (JStr ''user_preference'')) storageWorks
         (fst (handleSaveLocalData payslipViewer (Some (JStr ''user_preference''))
                 (Some (JStr ''dark_mode'')) storageWorks waitingForToken)))
     = [InjectJavaScript
          (GuardedCall ''resolveGetLocalData'' (Some (JObj [(''value'', JStr ''dark_mode'')])))]"
  using get_local_data_idempotent[where P=payslipViewer and key="Some (JStr ''user_preference'')"
      and io=storageWorks and io'=storageWorks and s=waitingForToken]
    get_local_data_idempotent[where P=payslipViewer
      and key="Some (JObj [(''toString'', JBool True)])"
      and io=storageWorks and io'=storageWorks and s=waitingForToken]
  by (simp add: waitingForToken_def initialState_def sendResponseToWeb_def storageKey_def
      template_def payslipViewer_def storageWorks_def errMessage_def)

subsection \<open>C10: the token pushed after a fetch\<close>

text \<open>
  Claim C10 says that every successful credential fetch pushes a \<^verbatim>\<open>resolveToken\<close> call
  into the content surface. The push goes through \<^verbatim>\<open>webviewRef.current?.injectJavaScript\<close>,
  which does nothing while no WebView is mounted. Counterexample to C10: the payslip viewer
  is opened with local content, whose first render mounts no WebView (the content is still
  being read); the fetch at the start succeeds and stores the token, and nothing is
  injected.
\<close>

theorem local_session_token_counterexample:
  "authToken (fst (mount payslipViewer (TokenAt 42) Map.empty)) = Some ''auth_token_42''
   \<and> injected (snd (mount payslipViewer (TokenAt 42) Map.empty)) = []"
  by (simp add: mount_def payslipViewer_def appConfig_def truthyStr_def fetchAuthToken_def
      token_queue_closed_form commit_def initialState_def renderWebView_def decimal.simps
      sendResponseToWeb_def injected_def)

lemma remote_session_mounts:
  assumes "truthyStr (webViewUri P)" "webViewUri P \<noteq> Some ''local''"
  shows "webviewRef (commit P (initialState store))"
  using assms
  by (auto simp: commit_def initialState_def renderWebView_def truthyStr_def split: option.splits)

text \<open>
  Claim C10, amended. A successful credential fetch made while the WebView is mounted
  injects a \<^verbatim>\<open>resolveToken\<close> call that no message asked for, once for itself and once
  more per waiting request, so at least once when nothing waits; made while no WebView is
  mounted it injects nothing. A session with a remote content source that requires
  authentication and has exchange material therefore injects exactly one such call at its
  start. Every injected script is a guarded call: evaluated on a page that has not defined
  \<^verbatim>\<open>window.nativebridge\<close>, or not that callback, it invokes nothing.
\<close>

theorem fetched_token_is_pushed_unsolicited:
  "(webviewRef s \<longrightarrow>
      injected (snd (fetchAuthToken (TokenAt now) s)) =
        replicate (Suc (length (pendingTokenRequests s)))
          (GuardedCall ''resolveToken'' (Some (JStr (''auth_token_'' @ decimal now)))))
   \<and> (\<not> webviewRef s \<longrightarrow> injected (snd (fetchAuthToken (TokenAt now) s)) = [])
   \<and> (requiresAuth (appConfig P) \<and> truthyStr (exchangedToken P) \<and> truthyStr (clientId P)
        \<and> truthyStr (webViewUri P) \<and> webViewUri P \<noteq> Some ''local'' \<longrightarrow>
      injected (snd (mount P (TokenAt now) store)) =
        [GuardedCall ''resolveToken'' (Some (JStr (''auth_token_'' @ decimal now)))])
   \<and> (\<forall>method d. evalScript None (GuardedCall method d) = []
         \<and> (\<forall>callbacks. method \<notin> set callbacks \<longrightarrow>
               evalScript (Some callbacks) (GuardedCall method d) = []))"
proof -
  have a: "webviewRef s \<longrightarrow>
      injected (snd (fetchAuthToken (TokenAt now) s)) =
        replicate (Suc (length (pendingTokenRequests s)))
          (GuardedCall ''resolveToken'' (Some (JStr (''auth_token_'' @ decimal now))))"
    by (simp add: fetchAuthToken_def token_queue_closed_form injected_response
        injected_resolutions)
  have b: "\<not> webviewRef s \<longrightarrow> injected (snd (fetchAuthToken (TokenAt now) s)) = []"
    by (simp add: fetchAuthToken_def token_queue_closed_form injected_response
        injected_resolutions)
  have c: "requiresAuth (appConfig P) \<and> truthyStr (exchangedToken P) \<and> truthyStr (clientId P)
        \<and> truthyStr (webViewUri P) \<and> webViewUri P \<noteq> Some ''local'' \<longrightarrow>
      injected (snd (mount P (TokenAt now) store)) =
        [GuardedCall ''resolveToken'' (Some (JStr (''auth_token_'' @ decimal now)))]"
  proof (intro impI, elim conjE)
    assume h: "requiresAuth (appConfig P)" "truthyStr (exchangedToken P)" "truthyStr (clientId P)"
      "truthyStr (webViewUri P)" "webViewUri P \<noteq> Some ''local''"
    have q: "pendingTokenRequests (commit P (initialState store)) = []"
      by (simp add: commit_def initialState_def)
    from h remote_session_mounts[OF h(4,5), of store] q
    show "injected (snd (mount P (TokenAt now) store)) =
        [GuardedCall ''resolveToken'' (Some (JStr (''auth_token_'' @ decimal now)))]"
      by (simp add: mount_def fetchAuthToken_def token_queue_closed_form injected_response
          split: prod.splits)
  qed
  from a b c show ?thesis by simp
qed

theorem fetched_token_is_pushed_unsolicited_witness:
  "injected (snd (mount governmentPayslip (TokenAt 42) Map.empty))
     = [GuardedCall ''resolveToken'' (Some (JStr ''auth_token_42''))]
   \<and> evalScript (Some [''resolveQrCode''])
        (GuardedCall ''resolveToken'' (Some (JStr ''auth_token_42''))) = []"
  using fetched_token_is_pushed_unsolicited[where P=governmentPayslip and now=42
      and store=Map.empty and s="initialState Map.empty"]
  by (simp add: governmentPayslip_def appConfig_def truthyStr_def decimal.simps)

end
